theory Spec2Isabelle
  imports Complex_Main "HOL-Library.AList" "HOL-Library.Sublist"
begin

section \<open>Python values and strings\<close>

text \<open>
  The pipeline of \<^verbatim>\<open>backend/app/pipeline/data2.py\<close> works on a requirements object
  with an endpoint name and a parameter dictionary. A parameter value is a scalar
  (\<^verbatim>\<open>None\<close>, a string, an integer) or a list of scalars. Strings are modelled as
  lists of 8-bit characters and the string operations below are the ASCII behaviour of
  Python's \<^verbatim>\<open>str\<close> methods: characters above 127 are neither whitespace nor cased.
  Floats, booleans and nested containers are outside the model.
\<close>

datatype scalar = SNone | SStr string | SInt int

datatype pyval = Scalar scalar | PList "scalar list"

text \<open>
  A dictionary is an association list with pairwise distinct keys, in insertion order.
  Assignment \<^verbatim>\<open>d[k] = v\<close> is \<^const>\<open>AList.update\<close>: an existing key keeps its place, a
  new key goes to the end. Python compares dictionaries without regard to order.
\<close>

type_synonym params = "(string \<times> pyval) list"

definition dict_eq :: "('k \<times> 'v) list \<Rightarrow> ('k \<times> 'v) list \<Rightarrow> bool" where
  "dict_eq a b = (\<forall>k \<in> set (map fst a @ map fst b). map_of a k = map_of b k)"

subsection \<open>\<^verbatim>\<open>str.lower\<close>, \<^verbatim>\<open>str.strip\<close>, \<^verbatim>\<open>str.replace\<close>, \<^verbatim>\<open>in\<close>\<close>

definition upper_letters :: string where
  "upper_letters = ''ABCDEFGHIJKLMNOPQRSTUVWXYZ''"

definition lower_letters :: string where
  "lower_letters = ''abcdefghijklmnopqrstuvwxyz''"

definition lower_char :: "char \<Rightarrow> char" where
  "lower_char c = (case map_of (zip upper_letters lower_letters) c of Some d \<Rightarrow> d | None \<Rightarrow> c)"

definition lower :: "string \<Rightarrow> string" where
  "lower s = map lower_char s"

text \<open>The whitespace of \<^verbatim>\<open>str.isspace\<close> below 128: codes 9 to 13, 28 to 31 and 32.\<close>

definition is_space :: "char \<Rightarrow> bool" where
  "is_space c = (of_char c \<in> set [9, 10, 11, 12, 13, 28, 29, 30, 31, 32 :: nat])"

definition strip :: "string \<Rightarrow> string" where
  "strip s = rev (dropWhile is_space (rev (dropWhile is_space s)))"

text \<open>\<^verbatim>\<open>s.replace(' ', '_')\<close>: both strings are one character long.\<close>

definition replace_space :: "string \<Rightarrow> string" where
  "replace_space s = map (\<lambda>c. if c = CHR '' '' then CHR ''_'' else c) s"

text \<open>\<^verbatim>\<open>t in s\<close> on strings: \<open>t\<close> occurs in \<open>s\<close> as a contiguous block.\<close>

fun contains :: "string \<Rightarrow> string \<Rightarrow> bool" where
  "contains t [] = (t = [])"
| "contains t (c # s) = (prefix t (c # s) \<or> contains t s)"

subsection \<open>\<^verbatim>\<open>str(int)\<close> and \<^verbatim>\<open>int(str)\<close>\<close>

definition digit_char :: "nat \<Rightarrow> char" where
  "digit_char d = ''0123456789abcdef'' ! d"

function str_nat :: "nat \<Rightarrow> string" where
  "str_nat n = (if n < 10 then [digit_char n] else str_nat (n div 10) @ [digit_char (n mod 10)])"
  by pat_completeness auto
termination
  by (relation "measure id") auto

definition str_int :: "int \<Rightarrow> string" where
  "str_int i = (if i < 0 then CHR ''-'' # str_nat (nat (- i)) else str_nat (nat i))"

definition digit_val :: "char \<Rightarrow> nat option" where
  "digit_val c = map_of (zip ''0123456789'' [0 ..< 10]) c"

text \<open>
  The digits of an integer literal as \<^verbatim>\<open>int(str)\<close> reads them: one or more decimal digits,
  where a single underscore may stand between two digits. The accumulator is the value
  read so far; the flag says whether the previous character was a digit.
\<close>

fun read_digits :: "nat \<Rightarrow> bool \<Rightarrow> string \<Rightarrow> nat option" where
  "read_digits acc prev [] = (if prev then Some acc else None)"
| "read_digits acc prev (c # cs) =
     (if c = CHR ''_'' then (if prev then read_digits acc False cs else None)
      else case digit_val c of
             None \<Rightarrow> None
           | Some d \<Rightarrow> read_digits (10 * acc + d) True cs)"

text \<open>
  \<^verbatim>\<open>int(s)\<close> on a string: the whitespace that it skips at both ends is that of C's
  \<^verbatim>\<open>isspace\<close> (codes 9 to 13 and 32), not the larger set of \<^verbatim>\<open>str.strip\<close>; then an
  optional sign and the digits.
\<close>

definition is_int_space :: "char \<Rightarrow> bool" where
  "is_int_space c = (of_char c \<in> set [9, 10, 11, 12, 13, 32 :: nat])"

definition int_of_str :: "string \<Rightarrow> int option" where
  "int_of_str s =
     (case rev (dropWhile is_int_space (rev (dropWhile is_int_space s))) of
        [] \<Rightarrow> None
      | c # cs \<Rightarrow>
          if c = CHR ''-'' then map_option (\<lambda>n. - int n) (read_digits 0 False cs)
          else if c = CHR ''+'' then map_option int (read_digits 0 False cs)
          else map_option int (read_digits 0 False (c # cs)))"

subsection \<open>\<^verbatim>\<open>str.split(sep)\<close>\<close>

text \<open>
  Python scans from the left and cuts at each occurrence of the separator that does not
  overlap the previous one. \<open>cur\<close> holds the current piece, reversed.
\<close>

function split_from :: "string \<Rightarrow> string \<Rightarrow> string \<Rightarrow> string list" where
  "split_from sep cur s =
     (if s = [] then [rev cur]
      else if sep \<noteq> [] \<and> prefix sep s then rev cur # split_from sep [] (drop (length sep) s)
      else split_from sep (hd s # cur) (tl s))"
  by pat_completeness auto
termination
  by (relation "measure (\<lambda>(sep, cur, s). length s)") auto

definition split :: "string \<Rightarrow> string \<Rightarrow> string list" where
  "split s sep = split_from sep [] s"

subsection \<open>\<^verbatim>\<open>repr\<close> and \<^verbatim>\<open>str\<close> of values\<close>

definition hex2 :: "nat \<Rightarrow> string" where
  "hex2 n = [digit_char (n div 16), digit_char (n mod 16)]"

definition repr_char :: "char \<Rightarrow> char \<Rightarrow> string" where
  "repr_char quote c =
     (let n = (of_char c :: nat) in
      if c = quote \<or> c = CHR 0x5C then [CHR 0x5C, c]
      else if n = 9 then [CHR 0x5C, CHR ''t'']
      else if n = 10 then [CHR 0x5C, CHR ''n'']
      else if n = 13 then [CHR 0x5C, CHR ''r'']
      else if n < 32 \<or> n = 127 then [CHR 0x5C, CHR ''x''] @ hex2 n
      else [c])"

definition repr_str :: "string \<Rightarrow> string" where
  "repr_str s =
     (let quote = (if CHR 0x27 \<in> set s \<and> CHR 0x22 \<notin> set s then CHR 0x22 else CHR 0x27)
      in [quote] @ concat (map (repr_char quote) s) @ [quote])"

fun repr_scalar :: "scalar \<Rightarrow> string" where
  "repr_scalar SNone = ''None''"
| "repr_scalar (SStr s) = repr_str s"
| "repr_scalar (SInt i) = str_int i"

fun str_scalar :: "scalar \<Rightarrow> string" where
  "str_scalar SNone = ''None''"
| "str_scalar (SStr s) = s"
| "str_scalar (SInt i) = str_int i"

fun join :: "string \<Rightarrow> string list \<Rightarrow> string" where
  "join sep [] = []"
| "join sep [x] = x"
| "join sep (x # y # ys) = x @ sep @ join sep (y # ys)"

fun py_str :: "pyval \<Rightarrow> string" where
  "py_str (Scalar v) = str_scalar v"
| "py_str (PList vs) = ''['' @ join '', '' (map repr_scalar vs) @ '']''"

section \<open>The parameter normaliser\<close>

text \<open>
  \<^verbatim>\<open>DataPipeline._normalize_params\<close>. The parameter is always a dictionary here, so
  the guard \<^verbatim>\<open>not params or not isinstance(params, dict)\<close> is the empty dictionary,
  on which the loop returns the empty dictionary as well. None of the string
  operations in the \<^verbatim>\<open>try\<close> block raises on these values.
\<close>

definition norm_str :: "string \<Rightarrow> string \<Rightarrow> string" where
  "norm_str key s = (if key = ''driver'' then replace_space (lower s) else strip s)"

fun norm_elem :: "string \<Rightarrow> scalar \<Rightarrow> scalar" where
  "norm_elem key (SStr s) = SStr (norm_str key s)"
| "norm_elem key v = v"

fun norm_value :: "string \<Rightarrow> pyval \<Rightarrow> pyval" where
  "norm_value key (Scalar (SStr s)) = Scalar (SStr (norm_str key s))"
| "norm_value key (PList vs) = PList (map (norm_elem key) vs)"
| "norm_value key v = v"

definition normalize_step :: "params \<Rightarrow> string \<times> pyval \<Rightarrow> params" where
  "normalize_step normalized kv =
     (let key = fst kv; value = snd kv in
      if value = Scalar SNone \<or> value = Scalar (SStr []) then normalized
      else let key = (if key = ''season'' then ''year'' else key)
           in AList.update key (norm_value key value) normalized)"

definition normalize_params :: "params \<Rightarrow> params" where
  "normalize_params ps = foldl normalize_step [] ps"

text \<open>
  An entry as the normaliser leaves it: the key is not the alias \<^verbatim>\<open>season\<close>, the value is
  not \<^verbatim>\<open>None\<close>, and normalising the value again changes nothing.
\<close>

definition normal_entry :: "string \<times> pyval \<Rightarrow> bool" where
  "normal_entry kv =
     (fst kv \<noteq> ''season'' \<and> snd kv \<noteq> Scalar SNone \<and> norm_value (fst kv) (snd kv) = snd kv)"

section \<open>Requirements and their decomposition\<close>

record requirements =
  endpoint :: string
  params :: params

text \<open>
  An exception is its class name and its message. Only exceptions derived from
  \<^verbatim>\<open>Exception\<close> are modelled (the handlers of the pipeline are \<^verbatim>\<open>except Exception\<close>);
  task cancellation and interpreter exit are outside the model.
\<close>

datatype exn = Exn (exn_type: string) (exn_msg: string)

text \<open>
  \<^verbatim>\<open>int(y)\<close> on a parameter value. The message of the \<^verbatim>\<open>ValueError\<close> shows the
  \<^verbatim>\<open>repr\<close> of the string, cut at 200 characters.
\<close>

fun py_int :: "scalar \<Rightarrow> exn + int" where
  "py_int (SInt i) = Inr i"
| "py_int (SStr s) =
     (case int_of_str s of
        Some i \<Rightarrow> Inr i
      | None \<Rightarrow>
          Inl (Exn ''ValueError''
            (''invalid literal for int() with base 10: '' @ take 200 (repr_str s))))"
| "py_int SNone =
     Inl (Exn ''TypeError''
       (''int() argument must be a string, a bytes-like object or a real number, not ''
        @ repr_str ''NoneType''))"

text \<open>The generator \<^verbatim>\<open>int(y) for y in years\<close>, consumed to its end: the first failure raises.\<close>

fun py_ints :: "scalar list \<Rightarrow> exn + int list" where
  "py_ints [] = Inr []"
| "py_ints (y # ys) =
     (case py_int y of
        Inl e \<Rightarrow> Inl e
      | Inr i \<Rightarrow> (case py_ints ys of Inl e \<Rightarrow> Inl e | Inr is \<Rightarrow> Inr (i # is)))"

text \<open>
  A split requirement is the dictionary with the keys \<^verbatim>\<open>endpoint\<close>, \<^verbatim>\<open>params\<close> and
  \<^verbatim>\<open>metadata\<close>; the metadata dictionary has exactly one entry, kept as a pair.
\<close>

record split_req =
  su_endpoint :: string
  su_params :: params
  su_metadata :: "string \<times> scalar"

text \<open>\<^verbatim>\<open>params.get(k, '')\<close> followed by \<^verbatim>\<open>str\<close>.\<close>

definition str_get :: "params \<Rightarrow> string \<Rightarrow> string" where
  "str_get ps k = (case map_of ps k of None \<Rightarrow> [] | Some v \<Rightarrow> py_str v)"

text \<open>
  The body of the two list branches of \<^verbatim>\<open>split_historical\<close>: the new values of
  \<^verbatim>\<open>start_year\<close> (\<open>None\<close> while unset) and \<^verbatim>\<open>end_year\<close>.
\<close>

definition list_range :: "int \<Rightarrow> scalar list \<Rightarrow> exn + (int option \<times> int)" where
  "list_range end_year years =
     (if years = [] then Inr (None, end_year)
      else case py_ints years of
             Inl e \<Rightarrow> Inl e
           | Inr is \<Rightarrow> Inr (Some (Min (set is)), Max (set is)))"

text \<open>
  The chain \<^verbatim>\<open>if ... elif ...\<close> of \<^verbatim>\<open>split_historical\<close> that parses the time range.
  \<open>now\<close> is \<^verbatim>\<open>datetime.now().year\<close>.
\<close>

definition time_range :: "int \<Rightarrow> params \<Rightarrow> exn + (int option \<times> int)" where
  "time_range now ps =
     (case map_of ps ''year'' of
        Some (PList years) \<Rightarrow> list_range now years
      | _ \<Rightarrow>
        (case map_of ps ''season'' of
           Some (PList years) \<Rightarrow> list_range now years
         | _ \<Rightarrow>
           if contains ''since'' (str_get ps ''year'') then
             (case py_int (SStr (strip (last (split (str_get ps ''year'') ''since'')))) of
                Inl e \<Rightarrow> Inl e
              | Inr i \<Rightarrow> Inr (Some i, now))
           else if contains ''last decade'' (str_get ps ''year'') then Inr (Some (now - 10), now)
           else Inr (None, now)))"

text \<open>\<^verbatim>\<open>if not start_year\<close>: true for \<^verbatim>\<open>None\<close> and for the integer 0.\<close>

definition default_start :: "int option \<Rightarrow> int \<Rightarrow> int" where
  "default_start start_year end_year =
     (case start_year of
        None \<Rightarrow> end_year - 5
      | Some s \<Rightarrow> if s = 0 then end_year - 5 else s)"

definition year_req :: "requirements \<Rightarrow> params \<Rightarrow> int \<Rightarrow> split_req" where
  "year_req requirements base_params year =
     \<lparr>su_endpoint = endpoint requirements,
      su_params = AList.update ''year'' (Scalar (SStr (str_int year))) base_params,
      su_metadata = (''year'', SInt year)\<rparr>"

definition split_historical :: "int \<Rightarrow> requirements \<Rightarrow> exn + split_req list" where
  "split_historical now requirements =
     (case time_range now (params requirements) of
        Inl e \<Rightarrow> Inl e
      | Inr (start_year, end_year) \<Rightarrow>
          let start_year = default_start start_year end_year;
              base_params = filter (\<lambda>kv. fst kv \<notin> set [''year'', ''season'']) (params requirements)
          in Inr (map (year_req requirements base_params) [start_year .. end_year]))"

definition metrics :: "(string \<times> string) list" where
  "metrics =
     [(''DRIVERS.specific'', ''career_stats''),
      (''RESULTS.race'', ''race_results''),
      (''QUALIFYING.race'', ''qualifying_results''),
      (''STANDINGS.driver_season'', ''championship_standings'')]"

definition split_career :: "requirements \<Rightarrow> split_req list" where
  "split_career requirements =
     map (\<lambda>metric. \<lparr>su_endpoint = fst metric,
                     su_params = params requirements,
                     su_metadata = (''metric'', SStr (snd metric))\<rparr>) metrics"

section \<open>The query classifier\<close>

definition is_long_list :: "pyval option \<Rightarrow> bool" where
  "is_long_list v = (case v of Some (PList xs) \<Rightarrow> length xs > 1 | _ \<Rightarrow> False)"

definition is_list :: "pyval option \<Rightarrow> bool" where
  "is_list v = (case v of Some (PList xs) \<Rightarrow> True | _ \<Rightarrow> False)"

definition is_historical_query :: "requirements \<Rightarrow> bool" where
  "is_historical_query requirements =
     (let ps = params requirements in
      if is_long_list (map_of ps ''year'') then True
      else if is_long_list (map_of ps ''season'') then True
      else let year_str = str_get ps ''year''
           in list_ex (\<lambda>term. contains term (lower year_str))
                [''since'', ''from'', ''decade'', ''between''])"

definition is_career_query :: "requirements \<Rightarrow> bool" where
  "is_career_query requirements =
     (let query_str = lower (str_get (params requirements) ''query'')
      in list_ex (\<lambda>term. contains term query_str)
           [''career'', ''all time'', ''lifetime'', ''overall''])"

definition is_multi_entity_query :: "requirements \<Rightarrow> bool" where
  "is_multi_entity_query requirements =
     (is_list (map_of (params requirements) ''driver'') \<or>
      is_list (map_of (params requirements) ''constructor''))"

datatype strategy = Historical | Career | MultiEntity | Single

text \<open>The branch that the chain \<^verbatim>\<open>if ... elif ... else\<close> of \<^verbatim>\<open>process\<close> takes.\<close>

definition classify :: "requirements \<Rightarrow> strategy" where
  "classify requirements =
     (if is_historical_query requirements then Historical
      else if is_career_query requirements then Career
      else if is_multi_entity_query requirements then MultiEntity
      else Single)"

text \<open>
  The classification as the specification words it. A string contains a term
  case-insensitively when some contiguous block of it is the term up to letter case.
\<close>

definition contains_ci :: "string \<Rightarrow> string \<Rightarrow> bool" where
  "contains_ci t s = (\<exists>u. sublist u s \<and> lower u = lower t)"

definition spec_historical :: "params \<Rightarrow> bool" where
  "spec_historical ps =
     ((\<exists>xs. map_of ps ''year'' = Some (PList xs) \<and> length xs > 1) \<or>
      (\<exists>xs. map_of ps ''season'' = Some (PList xs) \<and> length xs > 1) \<or>
      (\<exists>t \<in> {''since'', ''from'', ''decade'', ''between''}. contains_ci t (str_get ps ''year'')))"

definition spec_career :: "params \<Rightarrow> bool" where
  "spec_career ps =
     (\<exists>t \<in> {''career'', ''all time'', ''lifetime'', ''overall''}. contains_ci t (str_get ps ''query''))"

definition spec_multi_entity :: "params \<Rightarrow> bool" where
  "spec_multi_entity ps =
     ((\<exists>xs. map_of ps ''driver'' = Some (PList xs)) \<or>
      (\<exists>xs. map_of ps ''constructor'' = Some (PList xs)))"

definition classify_spec :: "params \<Rightarrow> strategy" where
  "classify_spec ps =
     (if spec_historical ps then Historical
      else if spec_career ps then Career
      else if spec_multi_entity ps then MultiEntity
      else Single)"

section \<open>Tabular datasets\<close>

text \<open>
  A \<^verbatim>\<open>pandas.DataFrame\<close> is its column labels and its rows; a row maps column labels to
  cells, and a cell that a row does not hold is the missing value. This is the content
  of a frame; the frame itself is an object, see below.
  \<^item> \<^verbatim>\<open>pd.DataFrame()\<close> has no column and no row;
  \<^item> \<^verbatim>\<open>df.empty\<close> holds when either axis has length 0;
  \<^item> \<^verbatim>\<open>df[c] = v\<close> with a scalar \<open>v\<close> sets the cell of column \<open>c\<close> in every row, adding the
    column at the end when it is new;
  \<^item> \<^verbatim>\<open>pd.concat([a, b], ignore_index=True)\<close> has the rows of \<open>a\<close> followed by the rows of
    \<open>b\<close> and the union of their columns.
\<close>

type_synonym row = "(string \<times> scalar) list"

record dataset =
  df_columns :: "string list"
  df_rows :: "row list"

definition empty_frame :: dataset where
  "empty_frame = \<lparr>df_columns = [], df_rows = []\<rparr>"

definition df_empty :: "dataset \<Rightarrow> bool" where
  "df_empty df = (df_columns df = [] \<or> df_rows df = [])"

definition set_column :: "string \<Rightarrow> scalar \<Rightarrow> dataset \<Rightarrow> dataset" where
  "set_column c v df =
     \<lparr>df_columns = (if c \<in> set (df_columns df) then df_columns df else df_columns df @ [c]),
      df_rows = map (AList.update c v) (df_rows df)\<rparr>"

definition concat_frames :: "dataset \<Rightarrow> dataset \<Rightarrow> dataset" where
  "concat_frames a b =
     \<lparr>df_columns = df_columns a @ filter (\<lambda>c. c \<notin> set (df_columns a)) (df_columns b),
      df_rows = df_rows a @ df_rows b\<rparr>"

section \<open>Results and the external collaborators\<close>

datatype meta = MStr string | MInt int | MParams params | MEntities "scalar list"

type_synonym metadata = "(string \<times> meta) list"

text \<open>
  A \<^verbatim>\<open>DataFrame\<close> is a mutable object, and the merge writes into the frames that the
  fetch returned. So a frame is held by reference: an object has an identity, and the
  frame objects map each identity to the content of that object. Two results may hold
  the same object.
\<close>

type_synonym frame_ref = nat

type_synonym frames = "frame_ref \<Rightarrow> dataset"

text \<open>
  The dictionary that \<^verbatim>\<open>_process_single\<close> returns; \<open>u_data\<close> is the frame object under
  \<^verbatim>\<open>data['results']\<close>, or \<open>None\<close> for \<^verbatim>\<open>'data': None\<close>.
\<close>

record unit_result =
  u_success :: bool
  u_data :: "frame_ref option"
  u_error :: "string option"
  u_metadata :: metadata

text \<open>
  The dictionary that \<^verbatim>\<open>process\<close> returns. Its data are \<^verbatim>\<open>{'results': frame}\<close> or, for
  a career query, \<^verbatim>\<open>{'results': {metric: frame}}\<close>, with the content that the frames have
  when \<^verbatim>\<open>process\<close> returns.
\<close>

datatype payload = Results dataset | Keyed "(string \<times> dataset) list"

record response =
  success :: bool
  data :: "payload option"
  error :: "string option"
  metadata :: metadata

text \<open>
  \<^verbatim>\<open>build_endpoint\<close> and \<^verbatim>\<open>fetch_f1_data\<close> are imported from other modules. Each call
  either raises or returns; what a call does may change from one attempt to the next, so
  both take the index of the attempt that makes the call. A fetch returns a dictionary or
  something else (of which only the type name is seen); the data of the dictionary are
  nothing, a frame object, or something that is not a frame. \<open>frame_objects\<close> gives the
  content of the frame objects that the fetch hands out.
\<close>

datatype build_outcome = BuildRaises exn | BuildReturns "string option"

datatype fetched = NoData | Frame frame_ref | OtherData

record fetch_response =
  f_success :: bool
  f_data :: fetched
  f_error :: "string option"

datatype fetch_outcome = FetchRaises exn | FetchNonDict string | FetchReturns fetch_response

record env =
  build_endpoint :: "nat \<Rightarrow> string \<Rightarrow> params \<Rightarrow> build_outcome"
  fetch_f1_data :: "nat \<Rightarrow> string \<Rightarrow> params \<Rightarrow> fetch_outcome"
  frame_objects :: frames
  now_year :: int
  now_iso :: string

text \<open>What a run does besides returning: the fetches it awaits and the delays it sleeps.\<close>

datatype event = Fetch string params | Sleep real

section \<open>The single-unit dispatcher\<close>

definition max_retries :: nat where
  "max_retries = 3"

definition retry_delay :: real where
  "retry_delay = 1.0"

definition failed :: "string \<Rightarrow> metadata \<Rightarrow> unit_result" where
  "failed msg md = \<lparr>u_success = False, u_data = None, u_error = Some msg, u_metadata = md\<rparr>"

text \<open>\<^verbatim>\<open>error or 'No data retrieved'\<close>: \<^verbatim>\<open>None\<close> and the empty string are false.\<close>

definition error_or :: "string option \<Rightarrow> string \<Rightarrow> string" where
  "error_or e d = (case e of None \<Rightarrow> d | Some m \<Rightarrow> if m = [] then d else m)"

text \<open>One pass through the loop body either returns from the function or goes on.\<close>

datatype step = Return unit_result | Continue

text \<open>
  The \<^verbatim>\<open>try\<close> block of one attempt: \<open>Inl\<close> is an exception raised inside it, by
  \<^verbatim>\<open>build_endpoint\<close> or by the fetch.
\<close>

definition try_block :: "env \<Rightarrow> string \<Rightarrow> params \<Rightarrow> nat \<Rightarrow> (exn + step) \<times> event list" where
  "try_block e ep ps attempt =
     (case build_endpoint e attempt ep ps of
        BuildRaises x \<Rightarrow> (Inl x, [])
      | BuildReturns full \<Rightarrow>
          (case full of
             None \<Rightarrow>
               (Inr (Return (failed ''Failed to build endpoint''
                  [(''endpoint'', MStr ep), (''params'', MParams ps),
                   (''timestamp'', MStr (now_iso e))])), [])
           | Some full_endpoint \<Rightarrow>
               if full_endpoint = [] then
                 (Inr (Return (failed ''Failed to build endpoint''
                    [(''endpoint'', MStr ep), (''params'', MParams ps),
                     (''timestamp'', MStr (now_iso e))])), [])
               else
                 (case fetch_f1_data e attempt full_endpoint ps of
                    FetchRaises x \<Rightarrow> (Inl x, [Fetch full_endpoint ps])
                  | FetchNonDict ty \<Rightarrow>
                      (Inr (Return (failed
                         (''Invalid response type: <class '' @ repr_str ty @ ''>'')
                         [(''endpoint'', MStr full_endpoint), (''params'', MParams ps),
                          (''timestamp'', MStr (now_iso e)),
                          (''attempt'', MInt (int attempt + 1))])),
                       [Fetch full_endpoint ps])
                  | FetchReturns r \<Rightarrow>
                      (case (f_success r, f_data r) of
                         (True, Frame df) \<Rightarrow>
                           (Inr (Return
                              \<lparr>u_success = True, u_data = Some df, u_error = None,
                               u_metadata =
                                 [(''endpoint'', MStr full_endpoint), (''params'', MParams ps),
                                  (''timestamp'', MStr (now_iso e)),
                                  (''attempt'', MInt (int attempt + 1)),
                                  (''rows'', MInt (int (length (df_rows (frame_objects e df)))))]\<rparr>),
                            [Fetch full_endpoint ps])
                       | _ \<Rightarrow>
                           if attempt < max_retries - 1 then
                             (Inr Continue,
                              [Fetch full_endpoint ps, Sleep (retry_delay * (real attempt + 1))])
                           else
                             (Inr (Return (failed (error_or (f_error r) ''No data retrieved'')
                                [(''endpoint'', MStr full_endpoint), (''params'', MParams ps),
                                 (''timestamp'', MStr (now_iso e)),
                                 (''attempt'', MInt (int attempt + 1))])),
                              [Fetch full_endpoint ps])))))"

text \<open>One attempt: the \<^verbatim>\<open>try\<close> block under its handler \<^verbatim>\<open>except Exception as e\<close>.\<close>

definition attempt_once :: "env \<Rightarrow> string \<Rightarrow> params \<Rightarrow> nat \<Rightarrow> step \<times> event list" where
  "attempt_once e ep ps attempt =
     (case try_block e ep ps attempt of
        (Inr st, evs) \<Rightarrow> (st, evs)
      | (Inl x, evs) \<Rightarrow>
          if attempt < max_retries - 1 then
            (Continue, evs @ [Sleep (retry_delay * (real attempt + 1))])
          else
            (Return (failed (''Processing error: '' @ exn_msg x)
               [(''endpoint'', MStr ep), (''timestamp'', MStr (now_iso e)),
                (''attempt'', MInt (int attempt + 1)), (''error_type'', MStr (exn_type x))]),
             evs))"

text \<open>
  The loop \<^verbatim>\<open>for attempt in range(max_retries)\<close> over the attempts that are left, and
  the \<^verbatim>\<open>return\<close> after it.
\<close>

fun attempts :: "env \<Rightarrow> string \<Rightarrow> params \<Rightarrow> nat list \<Rightarrow> unit_result \<times> event list" where
  "attempts e ep ps [] =
     (failed ''Max retries exceeded''
        [(''endpoint'', MStr ep), (''timestamp'', MStr (now_iso e)),
         (''max_retries'', MInt (int max_retries))], [])"
| "attempts e ep ps (attempt # rest) =
     (case attempt_once e ep ps attempt of
        (Return r, evs) \<Rightarrow> (r, evs)
      | (Continue, evs) \<Rightarrow> (case attempts e ep ps rest of (r, evs') \<Rightarrow> (r, evs @ evs')))"

text \<open>
  \<^verbatim>\<open>_process_single\<close>. The argument \<open>None\<close> is a requirements object that is false or has
  no endpoint. The result is \<open>Inl\<close> when the coroutine raises: the unit results that
  \<^verbatim>\<open>asyncio.gather(..., return_exceptions=True)\<close> collects have this type.
\<close>

definition process_single :: "env \<Rightarrow> requirements option \<Rightarrow> (exn + unit_result) \<times> event list" where
  "process_single e requirements =
     (case requirements of
        None \<Rightarrow>
          (Inr (failed ''Invalid requirements format'' [(''timestamp'', MStr (now_iso e))]), [])
      | Some req \<Rightarrow>
          let ep = endpoint req;
              ps = normalize_params (params req)
          in if ep = [] \<or> ps = [] then
               (Inr (failed ''Missing required parameters'' [(''timestamp'', MStr (now_iso e))]), [])
             else case attempts e ep ps [0 ..< max_retries] of (r, evs) \<Rightarrow> (Inr r, evs))"

section \<open>Merging the unit results\<close>

text \<open>
  The loops over \<^verbatim>\<open>enumerate(results)\<close> in \<^verbatim>\<open>_process_historical\<close> and
  \<^verbatim>\<open>_process_parallel\<close> are the same up to the column that is added (\<^verbatim>\<open>'year'\<close>, or the
  entity type) and the wording of the error messages (\<^verbatim>\<open>year 2019\<close>, or the entity).
  Each result comes with the grouping value found at its index.

  The state of the loop is \<^verbatim>\<open>success\<close>, the frame objects, \<^verbatim>\<open>merged_data['results']\<close> and
  \<^verbatim>\<open>errors\<close>. The loop writes into the objects: \<^verbatim>\<open>df[col] = tag\<close> changes the frame object
  of the unit. \<^verbatim>\<open>merged_data['results']\<close> is an object that only the loop holds (the
  \<^verbatim>\<open>pd.DataFrame()\<close> it starts with, or the new frame that \<^verbatim>\<open>pd.concat\<close> returns), kept by
  its content, or, after \<^verbatim>\<open>merged_data['results'] = df\<close>, the frame object of a unit.
\<close>

datatype merged = Own dataset | Shared frame_ref

record merge_state =
  ms_success :: bool
  ms_frames :: frames
  ms_merged :: merged
  ms_errors :: "string list"

text \<open>The content of \<^verbatim>\<open>merged_data['results']\<close>.\<close>

definition merged_frame :: "merge_state \<Rightarrow> dataset" where
  "merged_frame st = (case ms_merged st of Own df \<Rightarrow> df | Shared a \<Rightarrow> ms_frames st a)"

text \<open>\<^verbatim>\<open>result_dict.get('error', 'Unknown error')\<close> inside an f-string; the key is always there.\<close>

definition fmt_error :: "string option \<Rightarrow> string" where
  "fmt_error e = (case e of None \<Rightarrow> ''None'' | Some m \<Rightarrow> m)"

definition merge_rows_step ::
  "string \<Rightarrow> (scalar \<Rightarrow> string) \<Rightarrow> merge_state \<Rightarrow> scalar \<times> (exn + unit_result) \<Rightarrow> merge_state" where
  "merge_rows_step col label st tr =
     (case snd tr of
        Inl x \<Rightarrow>
          st\<lparr>ms_success := False,
             ms_errors := ms_errors st @ [''Error processing '' @ label (fst tr) @ '': '' @ exn_msg x]\<rparr>
      | Inr r \<Rightarrow>
          if \<not> u_success r then
            st\<lparr>ms_success := False,
               ms_errors := ms_errors st @
                 [''Failed to process '' @ label (fst tr) @ '': '' @ fmt_error (u_error r)]\<rparr>
          else
            (case u_data r of
               None \<Rightarrow> st
             | Some df \<Rightarrow>
                 if \<not> df_empty (ms_frames st df) then
                   (let st = st\<lparr>ms_frames :=
                                (ms_frames st)(df := set_column col (fst tr) (ms_frames st df))\<rparr>
                    in if df_empty (merged_frame st) then st\<lparr>ms_merged := Shared df\<rparr>
                       else st\<lparr>ms_merged :=
                              Own (concat_frames (merged_frame st) (ms_frames st df))\<rparr>)
                 else st))"

definition merge_rows ::
  "frames \<Rightarrow> string \<Rightarrow> (scalar \<Rightarrow> string) \<Rightarrow> (scalar \<times> (exn + unit_result)) list
     \<Rightarrow> merge_state" where
  "merge_rows objects col label trs =
     foldl (merge_rows_step col label)
       \<lparr>ms_success = True, ms_frames = objects, ms_merged = Own empty_frame, ms_errors = []\<rparr> trs"

definition year_label :: "scalar \<Rightarrow> string" where
  "year_label y = ''year '' @ str_scalar y"

text \<open>
  The loop of \<^verbatim>\<open>_process_career\<close>: the state holds the dictionary \<^verbatim>\<open>merged_data\<close>, from
  the metrics to the frame objects of the units. This loop reads the frames only.
\<close>

record keyed_state =
  ks_success :: bool
  ks_merged :: "(string \<times> frame_ref) list"
  ks_errors :: "string list"

definition merge_keyed_step :: "keyed_state \<Rightarrow> scalar \<times> (exn + unit_result) \<Rightarrow> keyed_state" where
  "merge_keyed_step st tr =
     (let metric = str_scalar (fst tr) in
      case snd tr of
        Inl x \<Rightarrow>
          st\<lparr>ks_success := False,
             ks_errors := ks_errors st @ [''Error processing '' @ metric @ '': '' @ exn_msg x]\<rparr>
      | Inr r \<Rightarrow>
          if \<not> u_success r then
            st\<lparr>ks_success := False,
               ks_errors := ks_errors st @
                 [''Failed to process '' @ metric @ '': '' @ fmt_error (u_error r)]\<rparr>
          else
            (case u_data r of
               None \<Rightarrow> st
             | Some df \<Rightarrow> st\<lparr>ks_merged := AList.update metric df (ks_merged st)\<rparr>))"

definition merge_keyed :: "(scalar \<times> (exn + unit_result)) list \<Rightarrow> keyed_state" where
  "merge_keyed trs =
     foldl merge_keyed_step \<lparr>ks_success = True, ks_merged = [], ks_errors = []\<rparr> trs"

definition join_errors :: "string list \<Rightarrow> string option" where
  "join_errors errors = (if errors \<noteq> [] then Some (join ''; '' errors) else None)"

section \<open>The pipeline\<close>

text \<open>
  \<^verbatim>\<open>type(requirements)(endpoint=req['endpoint'], params=req['params'])\<close>, handed to
  \<^verbatim>\<open>_process_single\<close>.
\<close>

definition single_req :: "split_req \<Rightarrow> requirements option" where
  "single_req req = Some \<lparr>endpoint = su_endpoint req, params = su_params req\<rparr>"

text \<open>
  The units of one \<^verbatim>\<open>asyncio.gather\<close> run one after the other here: their results come in
  the order of submission, and the events of the group are those of its units in that
  order.
\<close>

definition gather :: "env \<Rightarrow> requirements option list \<Rightarrow> (exn + unit_result) list \<times> event list" where
  "gather e reqs =
     (let runs = map (process_single e) reqs in (map fst runs, concat (map snd runs)))"

definition process_historical :: "env \<Rightarrow> requirements \<Rightarrow> exn + response \<times> event list" where
  "process_historical e requirements =
     (case split_historical (now_year e) requirements of
        Inl x \<Rightarrow> Inl x
      | Inr split_reqs \<Rightarrow>
          (case gather e (map single_req split_reqs) of
             (results, evs) \<Rightarrow>
               let st = merge_rows (frame_objects e) ''year'' year_label
                          (zip (map (snd \<circ> su_metadata) split_reqs) results)
               in Inr (\<lparr>success = (ms_success st \<and> \<not> df_empty (merged_frame st)),
                        data = (if \<not> df_empty (merged_frame st) then Some (Results (merged_frame st))
                                else None),
                        error = join_errors (ms_errors st),
                        metadata =
                          [(''query_type'', MStr ''historical''),
                           (''years_processed'', MInt (int (length split_reqs))),
                           (''timestamp'', MStr (now_iso e))]\<rparr>, evs)))"

definition process_career :: "env \<Rightarrow> requirements \<Rightarrow> exn + response \<times> event list" where
  "process_career e requirements =
     (let split_reqs = split_career requirements in
      case gather e (map single_req split_reqs) of
        (results, evs) \<Rightarrow>
          let st = merge_keyed (zip (map (snd \<circ> su_metadata) split_reqs) results)
          in Inr (\<lparr>success = (ks_success st \<and>
                       list_ex (\<lambda>df. \<not> df_empty (frame_objects e df)) (map snd (ks_merged st))),
                   data = (if ks_merged st \<noteq> []
                           then Some (Keyed (map (\<lambda>kd. (fst kd, frame_objects e (snd kd)))
                                               (ks_merged st)))
                           else None),
                   error = join_errors (ks_errors st),
                   metadata =
                     [(''query_type'', MStr ''career''),
                      (''metrics_processed'', MInt (int (length split_reqs))),
                      (''timestamp'', MStr (now_iso e))]\<rparr>, evs))"

definition batch_size :: nat where
  "batch_size = 4"

text \<open>The slices \<^verbatim>\<open>entities[i:i + batch_size]\<close> for \<^verbatim>\<open>i in range(0, len(entities), batch_size)\<close>.\<close>

function batches :: "'a list \<Rightarrow> 'a list list" where
  "batches xs = (if xs = [] then [] else take batch_size xs # batches (drop batch_size xs))"
  by pat_completeness auto
termination
  by (relation "measure length") (auto simp: batch_size_def)

text \<open>
  The entity list and the entity type that \<^verbatim>\<open>_process_parallel\<close> settles on, with the base
  parameters after the \<^verbatim>\<open>del\<close>. Without a list the entities are \<^verbatim>\<open>[]\<close> and the type is
  \<^verbatim>\<open>None\<close>.
\<close>

definition entities_of :: "params \<Rightarrow> scalar list \<times> string option \<times> params" where
  "entities_of ps =
     (case map_of ps ''driver'' of
        Some (PList es) \<Rightarrow> (es, Some ''driver'', AList.delete ''driver'' ps)
      | _ \<Rightarrow>
        (case map_of ps ''constructor'' of
           Some (PList es) \<Rightarrow> (es, Some ''constructor'', AList.delete ''constructor'' ps)
         | _ \<Rightarrow> ([], None, ps)))"

definition entity_req :: "requirements \<Rightarrow> params \<Rightarrow> string \<Rightarrow> scalar \<Rightarrow> requirements option" where
  "entity_req requirements base_params entity_type entity =
     Some \<lparr>endpoint = endpoint requirements,
           params = AList.update entity_type (Scalar entity) base_params\<rparr>"

text \<open>
  The loop over the batches: one \<^verbatim>\<open>gather\<close> for each, the results appended to
  \<^verbatim>\<open>all_results\<close>. With \<^verbatim>\<open>return_exceptions=True\<close> the \<^verbatim>\<open>gather\<close> itself does not raise,
  so the handler around it is never entered.
\<close>

fun run_batches ::
  "env \<Rightarrow> requirements \<Rightarrow> params \<Rightarrow> string \<Rightarrow> scalar list list \<Rightarrow> (exn + unit_result) list \<times> event list" where
  "run_batches e requirements base_params entity_type [] = ([], [])"
| "run_batches e requirements base_params entity_type (batch # rest) =
     (case gather e (map (entity_req requirements base_params entity_type) batch) of
        (batch_results, evs) \<Rightarrow>
          (case run_batches e requirements base_params entity_type rest of
             (all_results, evs') \<Rightarrow> (batch_results @ all_results, evs @ evs')))"

definition process_parallel :: "env \<Rightarrow> requirements \<Rightarrow> exn + response \<times> event list" where
  "process_parallel e requirements =
     (case entities_of (params requirements) of
        (entities, entity_type, base_params) \<Rightarrow>
          (case (if entities = [] then None else entity_type) of
             None \<Rightarrow>
               Inr (\<lparr>success = False, data = None, error = Some ''No parallel entities found'',
                     metadata = [(''timestamp'', MStr (now_iso e))]\<rparr>, [])
           | Some ty \<Rightarrow>
               (case run_batches e requirements base_params ty (batches entities) of
                  (all_results, evs) \<Rightarrow>
                    let st = merge_rows (frame_objects e) ty str_scalar (zip entities all_results)
                    in Inr (\<lparr>success = (ms_success st \<and> \<not> df_empty (merged_frame st)),
                             data = (if \<not> df_empty (merged_frame st)
                                     then Some (Results (merged_frame st))
                                     else None),
                             error = join_errors (ms_errors st),
                             metadata =
                               [(''entity_type'', MStr ty),
                                (''entities'', MEntities entities),
                                (''timestamp'', MStr (now_iso e)),
                                (''batch_size'', MInt (int batch_size)),
                                (''total_batches'',
                                   MInt (int ((length entities + batch_size - 1) div batch_size)))]\<rparr>,
                            evs))))"

text \<open>The single strategy returns the dictionary of \<^verbatim>\<open>_process_single\<close> as it is.\<close>

definition response_of :: "frames \<Rightarrow> unit_result \<Rightarrow> response" where
  "response_of objects r =
     \<lparr>success = u_success r, data = map_option (\<lambda>df. Results (objects df)) (u_data r),
      error = u_error r, metadata = u_metadata r\<rparr>"

definition process_one :: "env \<Rightarrow> requirements \<Rightarrow> exn + response \<times> event list" where
  "process_one e requirements =
     (case process_single e (Some requirements) of
        (Inl x, evs) \<Rightarrow> Inl x
      | (Inr r, evs) \<Rightarrow> Inr (response_of (frame_objects e) r, evs))"

text \<open>
  \<^verbatim>\<open>process\<close>: the dispatch on the shape of the query inside \<^verbatim>\<open>try\<close>, and the handler that
  turns an exception into a failure response.
\<close>

definition process :: "env \<Rightarrow> requirements \<Rightarrow> response \<times> event list" where
  "process e requirements =
     (case (if is_historical_query requirements then process_historical e requirements
            else if is_career_query requirements then process_career e requirements
            else if is_multi_entity_query requirements then process_parallel e requirements
            else process_one e requirements) of
        Inr out \<Rightarrow> out
      | Inl x \<Rightarrow>
          (\<lparr>success = False, data = None, error = Some (exn_msg x),
            metadata = [(''timestamp'', MStr (now_iso e)), (''error_type'', MStr (exn_type x))]\<rparr>, []))"

section \<open>Notions used to state the properties\<close>

text \<open>The fetches of a run, counted, and its delays, in order.\<close>

fun is_fetch :: "event \<Rightarrow> bool" where
  "is_fetch (Fetch ep ps) = True"
| "is_fetch (Sleep d) = False"

definition fetches :: "event list \<Rightarrow> nat" where
  "fetches evs = length (filter is_fetch evs)"

fun sleeps :: "event list \<Rightarrow> real list" where
  "sleeps [] = []"
| "sleeps (Sleep d # evs) = d # sleeps evs"
| "sleeps (Fetch ep ps # evs) = sleeps evs"

text \<open>
  A unit result is well formed when a success carries a frame and no error, and a
  failure carries an error message and no data.
\<close>

definition result_ok :: "unit_result \<Rightarrow> bool" where
  "result_ok r =
     (if u_success r then u_data r \<noteq> None \<and> u_error r = None
      else u_data r = None \<and> u_error r \<noteq> None)"

text \<open>A gathered result stands for a unit that did not fail: no exception, and success reported.\<close>

definition unit_ok :: "exn + unit_result \<Rightarrow> bool" where
  "unit_ok x = (case x of Inl e \<Rightarrow> False | Inr r \<Rightarrow> u_success r)"

text \<open>The frame object of a gathered result, when there is one, and its content.\<close>

definition unit_ref :: "exn + unit_result \<Rightarrow> frame_ref option" where
  "unit_ref x = (case x of Inl e \<Rightarrow> None | Inr r \<Rightarrow> u_data r)"

definition unit_frame :: "frames \<Rightarrow> exn + unit_result \<Rightarrow> dataset option" where
  "unit_frame objects x = map_option objects (unit_ref x)"

text \<open>
  What a unit contributes to the row-concatenation merge, in the words of the
  specification: when it succeeded and its dataset is not empty, its rows, each with the
  grouping value in the added column; no rows otherwise. The datasets are those that
  the frame objects hold before the merge.
\<close>

definition contributes :: "frames \<Rightarrow> exn + unit_result \<Rightarrow> bool" where
  "contributes objects x =
     (unit_ok x \<and> (case unit_frame objects x of None \<Rightarrow> False | Some df \<Rightarrow> \<not> df_empty df))"





text \<open>
  Two invariants of the row merge, with respect to the frame objects before the merge.
  The first: every frame object is as it was, or it was not empty and is as it was but
  for a value written into the added column. The second, for a state and the results
  still to come: the merged frame held by content has no rows or has a column, and if it
  is empty the first two contributors to come are apart; the merged frame held as the
  object of a unit is not empty, and the next contributor holds another object.
\<close>

definition retagged :: "frames \<Rightarrow> string \<Rightarrow> frames \<Rightarrow> bool" where
  "retagged objects col fs =
     (\<forall>a. fs a = objects a \<or>
          (\<not> df_empty (objects a) \<and> (\<exists>t. fs a = set_column col t (objects a))))"


text \<open>
  The split requirement for one year, in the words of the specification: the original
  parameters without \<^verbatim>\<open>year\<close> and \<^verbatim>\<open>season\<close>, plus \<^verbatim>\<open>year\<close> as a decimal string, and the
  year as the tag.
\<close>

definition year_unit :: "requirements \<Rightarrow> int \<Rightarrow> split_req" where
  "year_unit r y =
     \<lparr>su_endpoint = endpoint r,
      su_params = filter (\<lambda>kv. fst kv \<noteq> ''year'' \<and> fst kv \<noteq> ''season'') (params r)
                    @ [(''year'', Scalar (SStr (str_int y)))],
      su_metadata = (''year'', SInt y)\<rparr>"

text \<open>The results of the units that \<^verbatim>\<open>process\<close> gathers for a request, in order.\<close>

definition unit_results :: "env \<Rightarrow> requirements \<Rightarrow> (exn + unit_result) list" where
  "unit_results e r =
     (case classify r of
        Historical \<Rightarrow>
          (case split_historical (now_year e) r of
             Inl x \<Rightarrow> []
           | Inr split_reqs \<Rightarrow> fst (gather e (map single_req split_reqs)))
      | Career \<Rightarrow> fst (gather e (map single_req (split_career r)))
      | MultiEntity \<Rightarrow>
          (case entities_of (params r) of
             (entities, entity_type, base_params) \<Rightarrow>
               (case entity_type of
                  None \<Rightarrow> []
                | Some ty \<Rightarrow> fst (run_batches e r base_params ty (batches entities))))
      | Single \<Rightarrow> [fst (process_single e (Some r))])"

text \<open>The merged result of a response is empty: no data, an empty frame, or only empty frames.\<close>

definition merged_empty :: "payload option \<Rightarrow> bool" where
  "merged_empty d =
     (case d of
        None \<Rightarrow> True
      | Some (Results df) \<Rightarrow> df_empty df
      | Some (Keyed m) \<Rightarrow> list_all df_empty (map snd m))"

text \<open>
  What the collaborators do at one attempt, in the words of the specification: the
  endpoint cannot be built (absent or empty); the fetch returns something that is not a
  dictionary; the fetch reports success and supplies a frame; the fetch reports failure
  or supplies no frame; or one of the two raises.
\<close>

datatype attempt_result =
  BuildFailed
| InvalidResponse string
| Fetched frame_ref
| NoDataYet "string option"
| Raised exn

definition attempt_result :: "env \<Rightarrow> string \<Rightarrow> params \<Rightarrow> nat \<Rightarrow> attempt_result" where
  "attempt_result e ep ps a =
     (case build_endpoint e a ep ps of
        BuildRaises x \<Rightarrow> Raised x
      | BuildReturns None \<Rightarrow> BuildFailed
      | BuildReturns (Some full) \<Rightarrow>
          if full = [] then BuildFailed
          else (case fetch_f1_data e a full ps of
                  FetchRaises x \<Rightarrow> Raised x
                | FetchNonDict ty \<Rightarrow> InvalidResponse ty
                | FetchReturns r \<Rightarrow>
                    (case f_data r of
                       Frame df \<Rightarrow> if f_success r then Fetched df else NoDataYet (f_error r)
                     | _ \<Rightarrow> NoDataYet (f_error r))))"

text \<open>The attempts after which the dispatcher tries again, while attempts remain.\<close>

definition retried :: "attempt_result \<Rightarrow> bool" where
  "retried k = (case k of NoDataYet err \<Rightarrow> True | Raised x \<Rightarrow> True | _ \<Rightarrow> False)"

text \<open>
  The result that the specification gives for the attempt at which the dispatcher
  returns: the frame on success, and for each kind of failure \<^verbatim>\<open>success\<close> false, no data
  and the message of that kind.
\<close>

definition reports :: "attempt_result \<Rightarrow> unit_result \<Rightarrow> bool" where
  "reports k r =
     (case k of
        BuildFailed \<Rightarrow>
          \<not> u_success r \<and> u_data r = None \<and> u_error r = Some ''Failed to build endpoint''
      | InvalidResponse ty \<Rightarrow>
          \<not> u_success r \<and> u_data r = None \<and>
          u_error r = Some (''Invalid response type: <class '' @ repr_str ty @ ''>'')
      | Fetched df \<Rightarrow> u_success r \<and> u_data r = Some df \<and> u_error r = None
      | NoDataYet err \<Rightarrow>
          \<not> u_success r \<and> u_data r = None \<and> u_error r = Some (error_or err ''No data retrieved'')
      | Raised x \<Rightarrow>
          \<not> u_success r \<and> u_data r = None \<and> u_error r = Some (''Processing error: '' @ exn_msg x))"

section \<open>Example collaborators\<close>

text \<open>
  Four behaviours of the collaborators, for concrete runs. The endpoint builder
  prefixes the endpoint name with a slash. The fetch returns a frame object of two rows,
  or a frame object without rows, or reports that it has no data, or raises.
\<close>

definition two_rows :: dataset where
  "two_rows = \<lparr>df_columns = [''position''],
               df_rows = [[(''position'', SInt 1)], [(''position'', SInt 2)]]\<rparr>"

definition one_row :: dataset where
  "one_row = \<lparr>df_columns = [''position''], df_rows = [[(''position'', SInt 3)]]\<rparr>"

definition no_rows :: dataset where
  "no_rows = \<lparr>df_columns = [''position''], df_rows = []\<rparr>"

text \<open>The object 0 holds \<open>two_rows\<close>, the object 1 holds \<open>one_row\<close>, any other has no rows.\<close>

definition some_frames :: frames where
  "some_frames a = (if a = 0 then two_rows else if a = 1 then one_row else no_rows)"

definition env_up :: env where
  "env_up =
     \<lparr>build_endpoint = (\<lambda>attempt ep ps. BuildReturns (Some (''/'' @ ep))),
      fetch_f1_data = (\<lambda>attempt ep ps.
        FetchReturns \<lparr>f_success = True, f_data = Frame 0, f_error = None\<rparr>),
      frame_objects = some_frames,
      now_year = 2026, now_iso = ''2026-03-01T12:00:00''\<rparr>"

definition env_empty :: env where
  "env_empty =
     \<lparr>build_endpoint = (\<lambda>attempt ep ps. BuildReturns (Some (''/'' @ ep))),
      fetch_f1_data = (\<lambda>attempt ep ps.
        FetchReturns \<lparr>f_success = True, f_data = Frame 2, f_error = None\<rparr>),
      frame_objects = some_frames,
      now_year = 2026, now_iso = ''2026-03-01T12:00:00''\<rparr>"

definition env_down :: env where
  "env_down =
     \<lparr>build_endpoint = (\<lambda>attempt ep ps. BuildReturns (Some (''/'' @ ep))),
      fetch_f1_data = (\<lambda>attempt ep ps.
        FetchReturns \<lparr>f_success = False, f_data = NoData, f_error = None\<rparr>),
      frame_objects = some_frames,
      now_year = 2026, now_iso = ''2026-03-01T12:00:00''\<rparr>"

definition env_raising :: env where
  "env_raising =
     \<lparr>build_endpoint = (\<lambda>attempt ep ps. BuildReturns (Some (''/'' @ ep))),
      fetch_f1_data = (\<lambda>attempt ep ps. FetchRaises (Exn ''ConnectionError'' ''connection reset'')),
      frame_objects = some_frames,
      now_year = 2026, now_iso = ''2026-03-01T12:00:00''\<rparr>"

section \<open>Dictionaries and strings\<close>

lemma dict_eq_iff: "dict_eq a b \<longleftrightarrow> map_of a = map_of b"
proof
  assume h: "dict_eq a b"
  show "map_of a = map_of b"
  proof
    fix k
    show "map_of a k = map_of b k"
    proof (cases "k \<in> fst ` set a \<union> fst ` set b")
      case True
      with h show ?thesis by (auto simp: dict_eq_def)
    next
      case False
      then have "map_of a k = None" "map_of b k = None"
        by (simp_all add: map_of_eq_None_iff)
      then show ?thesis by simp
    qed
  qed
next
  assume "map_of a = map_of b"
  then show "dict_eq a b" by (simp add: dict_eq_def)
qed

lemma lower_char_fix: "lower_char (lower_char c) = lower_char c"
  by (simp add: lower_char_def upper_letters_def lower_letters_def)

lemma lower_char_space: "lower_char c = CHR '' '' \<longleftrightarrow> c = CHR '' ''"
  by (simp add: lower_char_def upper_letters_def lower_letters_def)

lemma lower_char_underscore: "lower_char CHR ''_'' = CHR ''_''"
  by (simp add: lower_char_def upper_letters_def lower_letters_def)

lemma driver_norm_idem: "replace_space (lower (replace_space (lower s))) = replace_space (lower s)"
  by (induction s) (simp_all add: replace_space_def lower_def lower_char_fix lower_char_space lower_char_underscore)

lemma dropWhile_rev_fixed:
  assumes "dropWhile P t = t"
  shows "dropWhile P (rev (dropWhile P (rev t))) = rev (dropWhile P (rev t))"
proof (cases t)
  case Nil
  then show ?thesis by simp
next
  case (Cons x xs)
  with assms have nx: "\<not> P x" by (metis dropWhile_eq_Cons_conv hd_dropWhile list.sel(1) list.distinct(1))
  have "last (dropWhile P (rev t)) = last (rev t)"
    using Cons nx by (intro dropWhile_last) auto
  moreover have "dropWhile P (rev t) \<noteq> []"
    using Cons nx by (auto simp: dropWhile_eq_Nil_conv)
  ultimately have "hd (rev (dropWhile P (rev t))) = x" "rev (dropWhile P (rev t)) \<noteq> []"
    using Cons by (simp_all add: hd_rev)
  with nx show ?thesis
    by (cases "rev (dropWhile P (rev t))") auto
qed

lemma strip_idem: "strip (strip s) = strip s"
  unfolding strip_def
  by (simp add: dropWhile_rev_fixed dropWhile_idem)

lemma norm_str_idem: "norm_str k (norm_str k s) = norm_str k s"
  by (simp add: norm_str_def driver_norm_idem strip_idem)

lemma norm_elem_idem: "norm_elem k (norm_elem k v) = norm_elem k v"
  by (cases v) (simp_all add: norm_str_idem)

lemma norm_value_idem: "norm_value k (norm_value k v) = norm_value k v"
  by (induction k v rule: norm_value.induct) (simp_all add: norm_str_idem norm_elem_idem)

lemma norm_value_not_None: "v \<noteq> Scalar SNone \<Longrightarrow> norm_value k v \<noteq> Scalar SNone"
  by (induction k v rule: norm_value.induct) simp_all

lemma update_fresh: "k \<notin> fst ` set al \<Longrightarrow> AList.update k v al = al @ [(k, v)]"
  by (induction al) auto

lemma set_update_subset: "set (AList.update k v al) \<subseteq> insert (k, v) (set al)"
  by (induction al) auto

section \<open>The normaliser is idempotent up to empty strings\<close>

lemma normalize_step_entries:
  assumes "\<forall>kv \<in> set acc. normal_entry kv"
  shows "\<forall>kv \<in> set (normalize_step acc x). normal_entry kv"
proof -
  obtain k v where x: "x = (k, v)" by (cases x)
  show ?thesis
  proof (cases "v = Scalar SNone \<or> v = Scalar (SStr [])")
    case True
    with x assms show ?thesis by (simp add: normalize_step_def)
  next
    case False
    define k' where "k' = (if k = ''season'' then ''year'' else k)"
    have step: "normalize_step acc x = AList.update k' (norm_value k' v) acc"
      using False x by (simp add: normalize_step_def k'_def Let_def)
    have "normal_entry (k', norm_value k' v)"
      using False by (simp add: normal_entry_def k'_def norm_value_idem norm_value_not_None)
    with assms set_update_subset [of k' "norm_value k' v" acc] show ?thesis
      unfolding step by blast
  qed
qed

lemma normalize_step_distinct:
  "distinct (map fst acc) \<Longrightarrow> distinct (map fst (normalize_step acc x))"
  by (simp add: normalize_step_def Let_def distinct_update)

lemma foldl_normalize_entries:
  "\<forall>kv \<in> set acc. normal_entry kv \<Longrightarrow> \<forall>kv \<in> set (foldl normalize_step acc ps). normal_entry kv"
proof (induction ps arbitrary: acc)
  case Nil
  then show ?case by simp
next
  case (Cons x ps)
  from Cons.prems have "\<forall>kv \<in> set (normalize_step acc x). normal_entry kv"
    by (rule normalize_step_entries)
  then have "\<forall>kv \<in> set (foldl normalize_step (normalize_step acc x) ps). normal_entry kv"
    by (rule Cons.IH)
  then show ?case by simp
qed

lemma foldl_normalize_distinct:
  "distinct (map fst acc) \<Longrightarrow> distinct (map fst (foldl normalize_step acc ps))"
  by (induction ps arbitrary: acc) (simp_all add: normalize_step_distinct)

lemma normalize_params_normal: "\<forall>kv \<in> set (normalize_params ps). normal_entry kv"
  unfolding normalize_params_def by (rule foldl_normalize_entries) simp

lemma normalize_params_distinct: "distinct (map fst (normalize_params ps))"
  unfolding normalize_params_def by (rule foldl_normalize_distinct) simp

lemma foldl_normalize_normal:
  assumes "\<forall>kv \<in> set ps. normal_entry kv" "distinct (map fst ps)" "fst ` set acc \<inter> fst ` set ps = {}"
  shows "foldl normalize_step acc ps = acc @ filter (\<lambda>kv. snd kv \<noteq> Scalar (SStr [])) ps"
  using assms
proof (induction ps arbitrary: acc)
  case Nil
  then show ?case by simp
next
  case (Cons x ps)
  obtain k v where x: "x = (k, v)" by (cases x)
  from Cons.prems x have n: "k \<noteq> ''season''" "v \<noteq> Scalar SNone" "norm_value k v = v"
    by (simp_all add: normal_entry_def)
  from Cons.prems x have fresh: "k \<notin> fst ` set acc" by auto
  show ?case
  proof (cases "v = Scalar (SStr [])")
    case True
    then have "normalize_step acc x = acc" using x by (simp add: normalize_step_def)
    moreover have "fst ` set acc \<inter> fst ` set ps = {}" using Cons.prems by auto
    ultimately show ?thesis using Cons.IH [of acc] Cons.prems True x by simp
  next
    case False
    then have step: "normalize_step acc x = acc @ [(k, v)]"
      using x n fresh by (simp add: normalize_step_def Let_def update_fresh)
    have "fst ` set (acc @ [(k, v)]) \<inter> fst ` set ps = {}"
      using Cons.prems x by auto
    then have "foldl normalize_step (acc @ [(k, v)]) ps
                 = (acc @ [(k, v)]) @ filter (\<lambda>kv. snd kv \<noteq> Scalar (SStr [])) ps"
      using Cons.IH [of "acc @ [(k, v)]"] Cons.prems by simp
    then show ?thesis using step False x by simp
  qed
qed

lemma normalize_twice:
  "normalize_params (normalize_params ps) = filter (\<lambda>kv. snd kv \<noteq> Scalar (SStr [])) (normalize_params ps)"
proof -
  have "foldl normalize_step [] (normalize_params ps)
          = [] @ filter (\<lambda>kv. snd kv \<noteq> Scalar (SStr [])) (normalize_params ps)"
    by (rule foldl_normalize_normal) (simp_all add: normalize_params_normal normalize_params_distinct)
  then show ?thesis by (simp add: normalize_params_def)
qed

text \<open>
  Claim C6, as stated: for every parameter mapping \<open>p\<close>, normalising \<open>normalize(p)\<close> again
  gives \<open>normalize(p)\<close>. It fails when a string of whitespace only stands under a key
  other than \<^verbatim>\<open>driver\<close>: the first pass strips it to the empty string and keeps the
  key, the second pass drops the key.
\<close>

theorem normalize_not_idempotent:
  "\<not> dict_eq (normalize_params (normalize_params [(''round'', Scalar (SStr '' ''))]))
              (normalize_params [(''round'', Scalar (SStr '' ''))])"
  by (simp add: dict_eq_def normalize_params_def normalize_step_def norm_str_def strip_def is_space_def)

text \<open>
  Claim C6, amended: \<open>normalize(normalize(p)) == normalize(p)\<close> holds exactly when no value
  of \<open>normalize(p)\<close> is the empty string. In every case the second pass returns
  \<open>normalize(p)\<close> without its entries whose value is the empty string
  (\<open>normalize_twice\<close>).
\<close>

theorem normalize_idempotent_iff:
  "dict_eq (normalize_params (normalize_params ps)) (normalize_params ps)
     \<longleftrightarrow> (\<forall>kv \<in> set (normalize_params ps). snd kv \<noteq> Scalar (SStr []))"
proof
  assume "\<forall>kv \<in> set (normalize_params ps). snd kv \<noteq> Scalar (SStr [])"
  then have "filter (\<lambda>kv. snd kv \<noteq> Scalar (SStr [])) (normalize_params ps) = normalize_params ps"
    by simp
  then show "dict_eq (normalize_params (normalize_params ps)) (normalize_params ps)"
    by (simp add: normalize_twice dict_eq_iff)
next
  assume eq: "dict_eq (normalize_params (normalize_params ps)) (normalize_params ps)"
  show "\<forall>kv \<in> set (normalize_params ps). snd kv \<noteq> Scalar (SStr [])"
  proof
    fix kv assume kv: "kv \<in> set (normalize_params ps)"
    show "snd kv \<noteq> Scalar (SStr [])"
    proof
      assume e: "snd kv = Scalar (SStr [])"
      have d: "distinct (map fst (normalize_params ps))" by (rule normalize_params_distinct)
      from kv have "(fst kv, snd kv) \<in> set (normalize_params ps)" by simp
      with d have 1: "map_of (normalize_params ps) (fst kv) = Some (snd kv)" by (rule map_of_is_SomeI)
      have "map_of (normalize_params (normalize_params ps)) (fst kv) = Some (snd kv)"
        using eq 1 by (simp add: dict_eq_iff)
      then have "(fst kv, snd kv) \<in> set (normalize_params (normalize_params ps))"
        by (rule map_of_SomeD)
      then show False using e by (simp add: normalize_twice)
    qed
  qed
qed

theorem normalize_idempotent_witness:
  "dict_eq (normalize_params (normalize_params [(''season'', Scalar (SStr '' 2021 '')), (''driver'', PList [SStr ''Max Verstappen''])]))
           (normalize_params [(''season'', Scalar (SStr '' 2021 '')), (''driver'', PList [SStr ''Max Verstappen''])])
   \<and> normalize_params [(''season'', Scalar (SStr '' 2021 '')), (''driver'', PList [SStr ''Max Verstappen''])]
       = [(''year'', Scalar (SStr ''2021'')), (''driver'', PList [SStr ''max_verstappen''])]"
proof -
  have n: "normalize_params [(''season'', Scalar (SStr '' 2021 '')), (''driver'', PList [SStr ''Max Verstappen''])]
       = [(''year'', Scalar (SStr ''2021'')), (''driver'', PList [SStr ''max_verstappen''])]"
    by (simp add: normalize_params_def normalize_step_def norm_str_def strip_def is_space_def
        lower_def lower_char_def upper_letters_def lower_letters_def replace_space_def)
  have "\<forall>kv \<in> set (normalize_params [(''season'', Scalar (SStr '' 2021 '')), (''driver'', PList [SStr ''Max Verstappen''])]). snd kv \<noteq> Scalar (SStr [])"
    unfolding n by simp
  then show ?thesis
    using normalize_idempotent_iff [of "[(''season'', Scalar (SStr '' 2021 '')), (''driver'', PList [SStr ''Max Verstappen''])]"] n
    by simp
qed
section \<open>The classifier\<close>

lemma contains_sublist: "contains t s \<longleftrightarrow> sublist t s"
  by (induction s) (auto simp: sublist_Cons_right)

lemma contains_lower:
  assumes "lower t = t"
  shows "contains t (lower s) \<longleftrightarrow> contains_ci t s"
proof
  assume "contains t (lower s)"
  then have "sublist t (map lower_char s)" by (simp add: contains_sublist lower_def)
  then obtain u where "sublist u s" "t = map lower_char u" by (auto dest: sublist_map_rightE)
  then show "contains_ci t s" using assms by (auto simp: contains_ci_def lower_def)
next
  assume "contains_ci t s"
  then obtain u where u: "sublist u s" "lower u = lower t" by (auto simp: contains_ci_def)
  then have "sublist (lower u) (lower s)" unfolding lower_def by (intro map_mono_sublist)
  then show "contains t (lower s)" using u assms by (simp add: contains_sublist)
qed

lemma lower_terms:
  "lower ''since'' = ''since''" "lower ''from'' = ''from''" "lower ''decade'' = ''decade''"
  "lower ''between'' = ''between''" "lower ''career'' = ''career''" "lower ''all time'' = ''all time''"
  "lower ''lifetime'' = ''lifetime''" "lower ''overall'' = ''overall''"
  by (simp_all add: lower_def lower_char_def upper_letters_def lower_letters_def)

lemma is_long_list_iff: "is_long_list v \<longleftrightarrow> (\<exists>xs. v = Some (PList xs) \<and> length xs > 1)"
  by (auto simp: is_long_list_def split: option.splits pyval.splits)

lemma is_list_iff: "is_list v \<longleftrightarrow> (\<exists>xs. v = Some (PList xs))"
  by (auto simp: is_list_def split: option.splits pyval.splits)

lemma is_historical_query_spec: "is_historical_query r = spec_historical (params r)"
  by (auto simp add: is_historical_query_def spec_historical_def Let_def is_long_list_iff
      contains_lower lower_terms)

lemma is_career_query_spec: "is_career_query r = spec_career (params r)"
  by (simp add: is_career_query_def spec_career_def Let_def contains_lower lower_terms)

lemma is_multi_entity_query_spec: "is_multi_entity_query r = spec_multi_entity (params r)"
  by (simp add: is_multi_entity_query_def spec_multi_entity_def is_list_iff)

text \<open>
  Claim C3: the classification depends on the parameters only and follows the fixed
  priority order of the specification: historical when \<^verbatim>\<open>year\<close> or \<^verbatim>\<open>season\<close> is a list of
  more than one element or the stringified \<^verbatim>\<open>year\<close> contains one of \<^verbatim>\<open>since\<close>, \<^verbatim>\<open>from\<close>,
  \<^verbatim>\<open>decade\<close>, \<^verbatim>\<open>between\<close> up to letter case; otherwise career when the stringified
  \<^verbatim>\<open>query\<close> contains one of \<^verbatim>\<open>career\<close>, \<^verbatim>\<open>all time\<close>, \<^verbatim>\<open>lifetime\<close>, \<^verbatim>\<open>overall\<close> up to letter
  case; otherwise multi-entity when \<^verbatim>\<open>driver\<close> or \<^verbatim>\<open>constructor\<close> is a list; otherwise
  single. The branch that \<^verbatim>\<open>process\<close> takes is the one \<open>classify_spec\<close> names.
\<close>

theorem classify_refines_spec: "classify r = classify_spec (params r)"
  by (simp add: classify_def classify_spec_def is_historical_query_spec is_career_query_spec
      is_multi_entity_query_spec)

theorem classify_refines_spec_witness:
  "classify \<lparr>endpoint = ''RESULTS.race'',
             params = [(''year'', Scalar (SStr ''Since 2015'')), (''query'', Scalar (SStr ''career''))]\<rparr>
     = Historical
   \<and> classify_spec [(''year'', Scalar (SStr ''Since 2015'')), (''query'', Scalar (SStr ''career''))]
     = Historical"
  using classify_refines_spec [of "\<lparr>endpoint = ''RESULTS.race'',
             params = [(''year'', Scalar (SStr ''Since 2015'')), (''query'', Scalar (SStr ''career''))]\<rparr>"]
  by (simp add: classify_def is_historical_query_def is_long_list_def str_get_def lower_def
      lower_char_def upper_letters_def lower_letters_def)

section \<open>The historical splitter\<close>

lemma year_req_params:
  "''year'' \<notin> fst ` set base \<Longrightarrow>
   year_req r base y =
     \<lparr>su_endpoint = endpoint r, su_params = base @ [(''year'', Scalar (SStr (str_int y)))],
      su_metadata = (''year'', SInt y)\<rparr>"
  by (simp add: year_req_def update_fresh)

lemma time_range_year_list:
  assumes "map_of ps ''year'' = Some (PList ys)" "ys \<noteq> []" "py_ints ys = Inr is"
  shows "time_range now ps = Inr (Some (Min (set is)), Max (set is))"
  using assms by (simp add: time_range_def list_range_def)

lemma time_range_season_list:
  assumes "\<not> is_list (map_of ps ''year'')" "map_of ps ''season'' = Some (PList ys)" "ys \<noteq> []" "py_ints ys = Inr is"
  shows "time_range now ps = Inr (Some (Min (set is)), Max (set is))"
  using assms by (auto simp add: time_range_def list_range_def is_list_def split: option.splits pyval.splits)

lemma py_ints_length: "py_ints ys = Inr is \<Longrightarrow> length is = length ys"
  by (induction ys arbitrary: "is") (auto split: sum.splits)

lemma split_historical_range:
  assumes "time_range now (params r) = Inr (Some lo, hi)" "lo \<noteq> 0"
  shows "split_historical now r = Inr (map (year_unit r) [lo .. hi])"
proof -
  have "''year'' \<notin> fst ` set (filter (\<lambda>kv. fst kv \<noteq> ''year'' \<and> fst kv \<noteq> ''season'') (params r))"
    by auto
  then show ?thesis
    using assms by (simp add: split_historical_def default_start_def year_unit_def year_req_params)
qed

lemma split_historical_default:
  assumes "time_range now (params r) = Inr (None, hi)"
  shows "split_historical now r = Inr (map (year_unit r) [hi - 5 .. hi])"
proof -
  have "''year'' \<notin> fst ` set (filter (\<lambda>kv. fst kv \<noteq> ''year'' \<and> fst kv \<noteq> ''season'') (params r))"
    by auto
  then show ?thesis
    using assms by (simp add: split_historical_def default_start_def year_unit_def year_req_params)
qed

lemma split_historical_list:
  assumes "map_of (params r) ''year'' = Some (PList ys)
           \<or> (\<not> is_list (map_of (params r) ''year'') \<and> map_of (params r) ''season'' = Some (PList ys))"
    and "ys \<noteq> []" and "py_ints ys = Inr is" and "Min (set is) \<noteq> 0"
  shows "split_historical now r = Inr (map (year_unit r) [Min (set is) .. Max (set is)])"
proof (rule split_historical_range)
  from assms(1) show "time_range now (params r) = Inr (Some (Min (set is)), Max (set is))"
  proof
    assume "map_of (params r) ''year'' = Some (PList ys)"
    then show ?thesis using assms(2,3) by (rule time_range_year_list)
  next
    assume "\<not> is_list (map_of (params r) ''year'') \<and> map_of (params r) ''season'' = Some (PList ys)"
    then show ?thesis using assms(2,3) by (auto intro: time_range_season_list)
  qed
  show "Min (set is) \<noteq> 0" by (rule assms(4))
qed

text \<open>
  Claim C2 says that a non-empty list of years gives one unit for each year from the
  least to the greatest. \<open>split_historical_list\<close> proves it when the least year is not 0.
  When it is 0 the test \<^verbatim>\<open>if not start_year\<close> takes the start for unset and replaces it by
  \<^verbatim>\<open>end_year - 5\<close>: for the years 0 and 7 the units are those of 2 to 7, not of 0 to 7.
\<close>

theorem split_historical_year_zero:
  "split_historical now \<lparr>endpoint = ep, params = [(''year'', PList [SInt 0, SInt 7])]\<rparr>
     = Inr (map (year_req \<lparr>endpoint = ep, params = [(''year'', PList [SInt 0, SInt 7])]\<rparr> [])
              [2, 3, 4, 5, 6, 7])"
  by (simp add: split_historical_def time_range_def list_range_def default_start_def upto_rec_numeral)

text \<open>
  Claim C10: when neither \<^verbatim>\<open>year\<close> nor \<^verbatim>\<open>season\<close> is a list and the stringified \<^verbatim>\<open>year\<close>
  contains a classifier term up to letter case (such as \<^verbatim>\<open>Since\<close>) while it contains
  neither \<^verbatim>\<open>since\<close> nor \<^verbatim>\<open>last decade\<close> as written, the request is classified as historical,
  the splitter takes neither of these two branches, and the units are those of the
  default range from the current year minus 5 to the current year.
\<close>

theorem split_case_sensitive:
  assumes "\<not> is_list (map_of (params r) ''year'')"
    and "\<not> is_list (map_of (params r) ''season'')"
    and "\<exists>t \<in> {''since'', ''from'', ''decade'', ''between''}. contains_ci t (str_get (params r) ''year'')"
    and "\<not> contains ''since'' (str_get (params r) ''year'')"
    and "\<not> contains ''last decade'' (str_get (params r) ''year'')"
  shows "classify r = Historical
         \<and> time_range now (params r) = Inr (None, now)
         \<and> split_historical now r = Inr (map (year_unit r) [now - 5 .. now])"
proof -
  have h: "classify r = Historical"
    using assms(3) by (simp add: classify_def is_historical_query_spec spec_historical_def)
  have t: "time_range now (params r) = Inr (None, now)"
    using assms(1,2,4,5)
    by (auto simp: time_range_def is_list_def split: option.splits pyval.splits)
  from h t split_historical_default [OF t] show ?thesis by simp
qed

theorem split_case_sensitive_witness:
  "classify \<lparr>endpoint = ''RESULTS.race'', params = [(''year'', Scalar (SStr ''Since 2015''))]\<rparr>
     = Historical
   \<and> split_historical 2026 \<lparr>endpoint = ''RESULTS.race'', params = [(''year'', Scalar (SStr ''Since 2015''))]\<rparr>
     = Inr (map (year_unit \<lparr>endpoint = ''RESULTS.race'', params = [(''year'', Scalar (SStr ''Since 2015''))]\<rparr>)
              [2021, 2022, 2023, 2024, 2025, 2026])"
proof -
  let ?r = "\<lparr>endpoint = ''RESULTS.race'', params = [(''year'', Scalar (SStr ''Since 2015''))]\<rparr>"
  have s: "str_get (params ?r) ''year'' = ''Since 2015''" by (simp add: str_get_def)
  have "contains ''since'' (lower ''Since 2015'')"
    by (simp add: lower_def lower_char_def upper_letters_def lower_letters_def)
  then have "contains_ci ''since'' ''Since 2015''" by (simp add: contains_lower lower_terms)
  then have 3: "\<exists>t \<in> {''since'', ''from'', ''decade'', ''between''}. contains_ci t (str_get (params ?r) ''year'')"
    unfolding s by blast
  have 1: "\<not> is_list (map_of (params ?r) ''year'')" by (simp add: is_list_def)
  have 2: "\<not> is_list (map_of (params ?r) ''season'')" by (simp add: is_list_def)
  have 4: "\<not> contains ''since'' (str_get (params ?r) ''year'')" unfolding s by simp
  have 5: "\<not> contains ''last decade'' (str_get (params ?r) ''year'')" unfolding s by simp
  have u: "[2026 - 5 .. 2026 :: int] = [2021, 2022, 2023, 2024, 2025, 2026]"
    by (simp add: upto_rec_numeral)
  from split_case_sensitive [OF 1 2 3 4 5, of 2026] show ?thesis unfolding u by simp
qed

section \<open>The single-unit dispatcher\<close>

lemma failed_ok: "result_ok (failed msg md)"
  by (simp add: result_ok_def failed_def)

lemma success_ok:
  "result_ok \<lparr>u_success = True, u_data = Some df, u_error = None, u_metadata = md\<rparr>"
  by (simp add: result_ok_def)

lemma fetches_simps:
  "fetches [] = 0" "fetches (Fetch ep ps # evs) = Suc (fetches evs)"
  "fetches (Sleep d # evs) = fetches evs" "fetches (xs @ ys) = fetches xs + fetches ys"
  by (simp_all add: fetches_def)

lemma sleeps_append: "sleeps (xs @ ys) = sleeps xs @ sleeps ys"
  by (induction xs rule: sleeps.induct) simp_all

lemma try_block_shape:
  assumes "try_block e ep ps a = (out, evs)"
  shows "fetches evs \<le> 1 \<and>
         (case out of
            Inl x \<Rightarrow> sleeps evs = []
          | Inr (Return r) \<Rightarrow> result_ok r \<and> sleeps evs = []
          | Inr Continue \<Rightarrow> a < max_retries - 1 \<and> sleeps evs = [retry_delay * (real a + 1)])"
  using assms
  by (auto simp: try_block_def failed_ok success_ok fetches_simps
      split: build_outcome.splits option.splits if_splits fetch_outcome.splits bool.splits
        fetched.splits)

lemma attempt_once_shape:
  assumes "attempt_once e ep ps a = (st, evs)"
  shows "fetches evs \<le> 1 \<and>
         (case st of
            Return r \<Rightarrow> result_ok r \<and> sleeps evs = []
          | Continue \<Rightarrow> a < max_retries - 1 \<and> sleeps evs = [retry_delay * (real a + 1)])"
proof -
  obtain out evs0 where tb: "try_block e ep ps a = (out, evs0)" by (cases "try_block e ep ps a")
  note sh = try_block_shape [OF tb]
  show ?thesis
  proof (cases out)
    case (Inl x)
    with tb assms sh show ?thesis
      by (auto simp: attempt_once_def failed_ok fetches_simps sleeps_append split: if_splits)
  next
    case (Inr s)
    with tb assms sh show ?thesis
      by (auto simp: attempt_once_def split: step.splits)
  qed
qed

lemma attempts_shape:
  assumes "attempts e ep ps as = (r, evs)"
  shows "result_ok r \<and> fetches evs \<le> length as \<and>
         (\<exists>n \<le> length as. sleeps evs = map (\<lambda>a. retry_delay * (real a + 1)) (take n as)
              \<and> (\<forall>a \<in> set (take n as). a < max_retries - 1))"
  using assms
proof (induction as arbitrary: r evs)
  case Nil
  then show ?case by (auto simp: failed_ok fetches_simps)
next
  case (Cons a as)
  obtain st evs1 where ao: "attempt_once e ep ps a = (st, evs1)" by (cases "attempt_once e ep ps a")
  note sh = attempt_once_shape [OF ao]
  show ?case
  proof (cases st)
    case (Return r')
    with ao Cons.prems have "r = r'" "evs = evs1" by simp_all
    with sh Return have "result_ok r" "fetches evs \<le> 1" "sleeps evs = []" by simp_all
    then show ?thesis by (auto intro: exI [of _ 0])
  next
    case Continue
    obtain r2 evs2 where rest: "attempts e ep ps as = (r2, evs2)" by (cases "attempts e ep ps as")
    with ao Continue Cons.prems have eq: "r = r2" "evs = evs1 @ evs2" by simp_all
    from Cons.IH [OF rest] obtain n where n: "result_ok r2" "fetches evs2 \<le> length as"
      "n \<le> length as" "sleeps evs2 = map (\<lambda>a. retry_delay * (real a + 1)) (take n as)"
      "\<forall>a \<in> set (take n as). a < max_retries - 1" by blast
    from sh Continue have s1: "fetches evs1 \<le> 1" "a < max_retries - 1"
      "sleeps evs1 = [retry_delay * (real a + 1)]" by simp_all
    have "sleeps evs = map (\<lambda>a. retry_delay * (real a + 1)) (take (Suc n) (a # as))"
      using eq n s1 by (simp add: sleeps_append)
    moreover have "\<forall>b \<in> set (take (Suc n) (a # as)). b < max_retries - 1"
      using n s1 by simp
    moreover have "Suc n \<le> length (a # as)" using n by simp
    moreover have "fetches evs \<le> length (a # as)" using eq n s1 by (simp add: fetches_simps)
    ultimately show ?thesis using eq n(1) by blast
  qed
qed

lemma process_single_returns:
  "\<exists>r. fst (process_single e req) = Inr r \<and> result_ok r"
proof (cases req)
  case None
  then show ?thesis by (simp add: process_single_def failed_ok)
next
  case (Some q)
  show ?thesis
  proof (cases "endpoint q = [] \<or> normalize_params (params q) = []")
    case True
    with Some show ?thesis by (auto simp add: process_single_def failed_ok Let_def)
  next
    case False
    obtain r evs where a: "attempts e (endpoint q) (normalize_params (params q)) [0 ..< max_retries] = (r, evs)"
      by (cases "attempts e (endpoint q) (normalize_params (params q)) [0 ..< max_retries]")
    from attempts_shape [OF a] have "result_ok r" by simp
    with Some False a show ?thesis by (simp add: process_single_def Let_def)
  qed
qed

lemma process_single_events:
  "fetches (snd (process_single e req)) \<le> 3 \<and> prefix (sleeps (snd (process_single e req))) [1, 2]"
proof (cases req)
  case None
  then show ?thesis by (simp add: process_single_def fetches_simps)
next
  case (Some q)
  show ?thesis
  proof (cases "endpoint q = [] \<or> normalize_params (params q) = []")
    case True
    with Some show ?thesis by (auto simp add: process_single_def fetches_simps Let_def)
  next
    case False
    obtain r evs where a: "attempts e (endpoint q) (normalize_params (params q)) [0 ..< max_retries] = (r, evs)"
      by (cases "attempts e (endpoint q) (normalize_params (params q)) [0 ..< max_retries]")
    have evs: "snd (process_single e req) = evs"
      using Some False a by (simp add: process_single_def Let_def)
    have up: "[0 ..< max_retries] = [0, 1, 2]" by (simp add: max_retries_def upt_rec)
    from attempts_shape [OF a] have "fetches evs \<le> 3 \<and>
         (\<exists>n \<le> 3. sleeps evs = map (\<lambda>a. retry_delay * (real a + 1)) (take n [0, 1, 2])
              \<and> (\<forall>a \<in> set (take n [0, 1, 2]). a < max_retries - 1))"
      unfolding up by (simp add: numeral_3_eq_3)
    then obtain n where n: "fetches evs \<le> 3" "n \<le> 3"
      "sleeps evs = map (\<lambda>a. retry_delay * (real a + 1)) (take n [0, 1, 2])"
      "\<forall>a \<in> set (take n [0, 1, 2]). a < max_retries - 1"
      by blast
    from n(2) consider "n = 0" | "n = 1" | "n = 2" | "n = 3" by linarith
    then have "prefix (sleeps evs) [1, 2]"
    proof cases
      case 4
      with n(4) show ?thesis by (simp add: max_retries_def)
    qed (use n(3) in \<open>simp_all add: retry_delay_def\<close>)
    with n(1) evs show ?thesis by simp
  qed
qed

lemma upt_max_retries: "[0 ..< max_retries] = [0, 1, 2]"
  by (simp add: max_retries_def upt_rec)

lemma attempt_once_retried:
  assumes "retried (attempt_result e ep ps a)" and "a < max_retries - 1"
  shows "fst (attempt_once e ep ps a) = Continue"
  using assms
  by (auto simp: attempt_once_def try_block_def attempt_result_def retried_def
      split: build_outcome.splits option.splits if_splits fetch_outcome.splits bool.splits
        fetched.splits)

lemma attempt_once_reports:
  assumes "\<not> retried (attempt_result e ep ps a) \<or> \<not> a < max_retries - 1"
  shows "\<exists>r. fst (attempt_once e ep ps a) = Return r \<and> reports (attempt_result e ep ps a) r"
  using assms
  by (auto simp: attempt_once_def try_block_def attempt_result_def retried_def reports_def
      failed_def
      split: build_outcome.splits option.splits if_splits fetch_outcome.splits bool.splits
        fetched.splits)

lemma attempts_cons_continue:
  "fst (attempt_once e ep ps a) = Continue \<Longrightarrow>
   fst (attempts e ep ps (a # as)) = fst (attempts e ep ps as)"
  by (cases "attempt_once e ep ps a"; cases "attempts e ep ps as") simp

lemma attempts_cons_return:
  "fst (attempt_once e ep ps a) = Return r \<Longrightarrow> fst (attempts e ep ps (a # as)) = r"
  by (cases "attempt_once e ep ps a") simp

lemma attempts_reports:
  "\<exists>a < 3. (\<forall>b < a. retried (attempt_result e ep ps b))
        \<and> (a < 2 \<longrightarrow> \<not> retried (attempt_result e ep ps a))
        \<and> reports (attempt_result e ep ps a) (fst (attempts e ep ps [0 ..< max_retries]))"
proof -
  show ?thesis
  proof (cases "retried (attempt_result e ep ps 0)")
    case False
    then obtain r where r: "fst (attempt_once e ep ps 0) = Return r"
      "reports (attempt_result e ep ps 0) r"
      using attempt_once_reports [of e ep ps 0] by blast
    from r(1) have "fst (attempts e ep ps [0 ..< max_retries]) = r"
      unfolding upt_max_retries by (rule attempts_cons_return)
    with r False show ?thesis by (intro exI [of _ 0]) simp
  next
    case r0: True
    then have c0: "fst (attempt_once e ep ps 0) = Continue"
      by (rule attempt_once_retried) (simp add: max_retries_def)
    show ?thesis
    proof (cases "retried (attempt_result e ep ps 1)")
      case False
      then obtain r where r: "fst (attempt_once e ep ps 1) = Return r"
        "reports (attempt_result e ep ps 1) r"
        using attempt_once_reports [of e ep ps 1] by blast
      have "fst (attempts e ep ps [0 ..< max_retries]) = fst (attempts e ep ps [1, 2])"
        unfolding upt_max_retries using c0 by (rule attempts_cons_continue)
      also have "\<dots> = r" using r(1) by (rule attempts_cons_return)
      finally have "reports (attempt_result e ep ps 1) (fst (attempts e ep ps [0 ..< max_retries]))"
        using r(2) by simp
      moreover have "\<forall>b < (1::nat). retried (attempt_result e ep ps b)" using r0 by simp
      ultimately show ?thesis using False by (intro exI [of _ 1]) simp
    next
      case r1: True
      then have c1: "fst (attempt_once e ep ps 1) = Continue"
        by (rule attempt_once_retried) (simp add: max_retries_def)
      have "\<not> retried (attempt_result e ep ps 2) \<or> \<not> 2 < max_retries - 1"
        by (simp add: max_retries_def)
      then obtain r where r: "fst (attempt_once e ep ps 2) = Return r"
        "reports (attempt_result e ep ps 2) r"
        using attempt_once_reports [of e ep ps 2] by blast
      have "fst (attempts e ep ps [0 ..< max_retries]) = fst (attempts e ep ps [1, 2])"
        unfolding upt_max_retries using c0 by (rule attempts_cons_continue)
      also have "\<dots> = fst (attempts e ep ps [2])" using c1 by (rule attempts_cons_continue)
      also have "\<dots> = r" using r(1) by (rule attempts_cons_return)
      finally have "reports (attempt_result e ep ps 2) (fst (attempts e ep ps [0 ..< max_retries]))"
        using r(2) by simp
      moreover have "\<forall>b < (2::nat). retried (attempt_result e ep ps b)"
      proof (intro allI impI)
        fix b :: nat assume "b < 2"
        then have "b = 0 \<or> b = 1" by auto
        with r0 r1 show "retried (attempt_result e ep ps b)" by auto
      qed
      ultimately show ?thesis by (intro exI [of _ 2]) simp
    qed
  qed
qed

text \<open>
  Claim C8: the single-unit dispatcher never raises. Whatever the requirements and
  whatever \<^verbatim>\<open>build_endpoint\<close> and the fetch do at each attempt, raising included, the
  coroutine returns a dictionary. Absent requirements give \<^verbatim>\<open>success\<close> false with the
  invalid-requirements message; an empty endpoint or empty normalised parameters give
  \<^verbatim>\<open>success\<close> false with the missing-parameters message. Otherwise the dispatcher
  returns at the first attempt that is not retried, or at the third: an endpoint that
  cannot be built, a response of an invalid type, no data at the third attempt and an
  exception at the third attempt each give \<^verbatim>\<open>success\<close> false, no data and the message of
  that kind; only a fetch that reports success with a frame gives \<^verbatim>\<open>success\<close> true, with
  that frame.
\<close>

theorem dispatch_never_raises:
  "\<exists>r. fst (process_single e req) = Inr r \<and>
     (case req of
        None \<Rightarrow>
          \<not> u_success r \<and> u_data r = None \<and> u_error r = Some ''Invalid requirements format''
      | Some q \<Rightarrow>
          if endpoint q = [] \<or> normalize_params (params q) = []
          then \<not> u_success r \<and> u_data r = None \<and> u_error r = Some ''Missing required parameters''
          else (\<exists>a < 3.
                  (\<forall>b < a. retried (attempt_result e (endpoint q) (normalize_params (params q)) b))
                  \<and> (a < 2 \<longrightarrow>
                       \<not> retried (attempt_result e (endpoint q) (normalize_params (params q)) a))
                  \<and> reports (attempt_result e (endpoint q) (normalize_params (params q)) a) r))"
proof (cases req)
  case None
  then show ?thesis by (simp add: process_single_def failed_def)
next
  case (Some q)
  show ?thesis
  proof (cases "endpoint q = [] \<or> normalize_params (params q) = []")
    case True
    with Some show ?thesis by (auto simp add: process_single_def Let_def failed_def)
  next
    case False
    have "fst (process_single e req)
            = Inr (fst (attempts e (endpoint q) (normalize_params (params q)) [0 ..< max_retries]))"
      using Some False by (simp add: process_single_def Let_def split: prod.splits)
    with attempts_reports [of e "endpoint q" "normalize_params (params q)"] Some False
    show ?thesis by simp
  qed
qed

theorem dispatch_never_raises_witness:
  "\<exists>r. fst (process_single env_raising
            (Some \<lparr>endpoint = ''RESULTS.race'', params = [(''year'', Scalar (SInt 2021))]\<rparr>)) = Inr r
       \<and> \<not> u_success r \<and> u_data r = None
       \<and> u_error r = Some ''Processing error: connection reset''"
proof -
  let ?q = "\<lparr>endpoint = ''RESULTS.race'', params = [(''year'', Scalar (SInt 2021))]\<rparr>"
  have n: "normalize_params [(''year'', Scalar (SInt 2021))] = [(''year'', Scalar (SInt 2021))]"
    by (simp add: normalize_params_def normalize_step_def)
  have k: "attempt_result env_raising (endpoint ?q) (normalize_params (params ?q)) a
             = Raised (Exn ''ConnectionError'' ''connection reset'')" for a
    by (simp add: attempt_result_def env_raising_def)
  have v: "\<not> (endpoint ?q = [] \<or> normalize_params (params ?q) = [])"
    by (simp add: n)
  from dispatch_never_raises [of env_raising "Some ?q"] obtain r a where
    r: "fst (process_single env_raising (Some ?q)) = Inr r"
    and "reports (attempt_result env_raising (endpoint ?q) (normalize_params (params ?q)) a) r"
    unfolding option.case if_not_P [OF v] by blast
  then have "reports (Raised (Exn ''ConnectionError'' ''connection reset'')) r"
    by (simp only: k)
  then have "\<not> u_success r \<and> u_data r = None
       \<and> u_error r = Some ''Processing error: connection reset''"
    by (simp add: reports_def)
  with r show ?thesis by blast
qed

lemma no_data_scenario:
  assumes "endpoint q \<noteq> []" and "normalize_params (params q) \<noteq> []"
    and "\<forall>a < 3. build_endpoint e a (endpoint q) (normalize_params (params q)) = BuildReturns (Some (full a))
            \<and> full a \<noteq> []
            \<and> fetch_f1_data e a (full a) (normalize_params (params q)) = FetchReturns (resp a)
            \<and> \<not> f_success (resp a) \<and> f_data (resp a) = NoData"
  shows "process_single e (Some q) =
     (Inr (failed (error_or (f_error (resp 2)) ''No data retrieved'')
            [(''endpoint'', MStr (full 2)), (''params'', MParams (normalize_params (params q))),
             (''timestamp'', MStr (now_iso e)), (''attempt'', MInt 3)]),
      [Fetch (full 0) (normalize_params (params q)), Sleep 1,
       Fetch (full 1) (normalize_params (params q)), Sleep 2,
       Fetch (full 2) (normalize_params (params q))])"
proof -
  let ?ps = "normalize_params (params q)"
  from assms(3) have
    b0: "build_endpoint e 0 (endpoint q) ?ps = BuildReturns (Some (full 0))" "full 0 \<noteq> []"
       "fetch_f1_data e 0 (full 0) ?ps = FetchReturns (resp 0)" "\<not> f_success (resp 0)" "f_data (resp 0) = NoData"
    and b1: "build_endpoint e 1 (endpoint q) ?ps = BuildReturns (Some (full 1))" "full 1 \<noteq> []"
       "fetch_f1_data e 1 (full 1) ?ps = FetchReturns (resp 1)" "\<not> f_success (resp 1)" "f_data (resp 1) = NoData"
    and b2: "build_endpoint e 2 (endpoint q) ?ps = BuildReturns (Some (full 2))" "full 2 \<noteq> []"
       "fetch_f1_data e 2 (full 2) ?ps = FetchReturns (resp 2)" "\<not> f_success (resp 2)" "f_data (resp 2) = NoData"
    by simp_all
  have a0: "attempt_once e (endpoint q) ?ps 0 = (Continue, [Fetch (full 0) ?ps, Sleep 1])"
    using b0 by (simp add: attempt_once_def try_block_def max_retries_def retry_delay_def)
  have a1: "attempt_once e (endpoint q) ?ps (Suc 0) = (Continue, [Fetch (full (Suc 0)) ?ps, Sleep 2])"
    using b1 by (simp add: attempt_once_def try_block_def max_retries_def retry_delay_def)
  have a2: "attempt_once e (endpoint q) ?ps 2 =
      (Return (failed (error_or (f_error (resp 2)) ''No data retrieved'')
            [(''endpoint'', MStr (full 2)), (''params'', MParams ?ps),
             (''timestamp'', MStr (now_iso e)), (''attempt'', MInt 3)]), [Fetch (full 2) ?ps])"
    using b2 by (simp add: attempt_once_def try_block_def max_retries_def)
  show ?thesis
    using assms(1,2) by (simp add: process_single_def Let_def upt_max_retries a0 a1 a2)
qed

text \<open>
  Claim C4: the dispatcher fetches at most 3 times; the delays it sleeps are
  \<^verbatim>\<open>retry_delay * (attempt + 1)\<close> after the attempts that are retried, that is 1 second
  and then 2 seconds, in this order; and when the endpoint is built and the fetch returns
  \<^verbatim>\<open>success\<close> false without data at every attempt, the result has \<^verbatim>\<open>success\<close> false, the
  upstream error or \<^verbatim>\<open>No data retrieved\<close> as its message and 3 as \<^verbatim>\<open>metadata.attempt\<close>, and
  the run is fetch, 1 second, fetch, 2 seconds, fetch.
\<close>

theorem dispatch_retries:
  "fetches (snd (process_single e req)) \<le> 3
   \<and> prefix (sleeps (snd (process_single e req))) [retry_delay * 1, retry_delay * 2]
   \<and> retry_delay = 1
   \<and> (req = Some q \<and> endpoint q \<noteq> [] \<and> normalize_params (params q) \<noteq> []
        \<and> (\<forall>a < 3. build_endpoint e a (endpoint q) (normalize_params (params q)) = BuildReturns (Some (full a))
               \<and> full a \<noteq> []
               \<and> fetch_f1_data e a (full a) (normalize_params (params q)) = FetchReturns (resp a)
               \<and> \<not> f_success (resp a) \<and> f_data (resp a) = NoData)
      \<longrightarrow> (\<exists>r. fst (process_single e req) = Inr r
               \<and> \<not> u_success r
               \<and> u_error r = Some (error_or (f_error (resp 2)) ''No data retrieved'')
               \<and> map_of (u_metadata r) ''attempt'' = Some (MInt 3))
           \<and> snd (process_single e req) =
               [Fetch (full 0) (normalize_params (params q)), Sleep 1,
                Fetch (full 1) (normalize_params (params q)), Sleep 2,
                Fetch (full 2) (normalize_params (params q))])"
proof -
  have "fetches (snd (process_single e req)) \<le> 3 \<and> prefix (sleeps (snd (process_single e req))) [1, 2]"
    by (rule process_single_events)
  moreover have "retry_delay = 1" by (simp add: retry_delay_def)
  moreover have "(\<exists>r. fst (process_single e req) = Inr r
               \<and> \<not> u_success r
               \<and> u_error r = Some (error_or (f_error (resp 2)) ''No data retrieved'')
               \<and> map_of (u_metadata r) ''attempt'' = Some (MInt 3))
           \<and> snd (process_single e req) =
               [Fetch (full 0) (normalize_params (params q)), Sleep 1,
                Fetch (full 1) (normalize_params (params q)), Sleep 2,
                Fetch (full 2) (normalize_params (params q))]"
    if "req = Some q" "endpoint q \<noteq> []" "normalize_params (params q) \<noteq> []"
       "\<forall>a < 3. build_endpoint e a (endpoint q) (normalize_params (params q)) = BuildReturns (Some (full a))
               \<and> full a \<noteq> []
               \<and> fetch_f1_data e a (full a) (normalize_params (params q)) = FetchReturns (resp a)
               \<and> \<not> f_success (resp a) \<and> f_data (resp a) = NoData"
    unfolding that(1) no_data_scenario [OF that(2,3,4)]
    by (simp add: failed_def)
  ultimately show ?thesis by simp
qed

theorem dispatch_retries_witness:
  "\<exists>r. fst (process_single env_down
            (Some \<lparr>endpoint = ''RESULTS.race'', params = [(''year'', Scalar (SInt 2021))]\<rparr>)) = Inr r
       \<and> \<not> u_success r \<and> u_error r = Some ''No data retrieved''
       \<and> map_of (u_metadata r) ''attempt'' = Some (MInt 3)
       \<and> fetches (snd (process_single env_down
            (Some \<lparr>endpoint = ''RESULTS.race'', params = [(''year'', Scalar (SInt 2021))]\<rparr>))) = 3
       \<and> sleeps (snd (process_single env_down
            (Some \<lparr>endpoint = ''RESULTS.race'', params = [(''year'', Scalar (SInt 2021))]\<rparr>))) = [1, 2]"
proof -
  let ?q = "\<lparr>endpoint = ''RESULTS.race'', params = [(''year'', Scalar (SInt 2021))]\<rparr>"
  have n: "normalize_params (params ?q) = [(''year'', Scalar (SInt 2021))]"
    by (simp add: normalize_params_def normalize_step_def)
  have h: "\<forall>a < 3. build_endpoint env_down a (endpoint ?q) (normalize_params (params ?q))
                = BuildReturns (Some (''/RESULTS.race''))
            \<and> ''/RESULTS.race'' \<noteq> []
            \<and> fetch_f1_data env_down a ''/RESULTS.race'' (normalize_params (params ?q))
                = FetchReturns \<lparr>f_success = False, f_data = NoData, f_error = None\<rparr>
            \<and> \<not> f_success \<lparr>f_success = False, f_data = NoData, f_error = None\<rparr>
            \<and> f_data \<lparr>f_success = False, f_data = NoData, f_error = None\<rparr> = NoData"
    by (simp add: env_down_def)
  have e: "endpoint ?q \<noteq> []" by simp
  have p: "normalize_params (params ?q) \<noteq> []" unfolding n by simp
  from dispatch_retries [of env_down "Some ?q" ?q "\<lambda>a. ''/RESULTS.race''"
      "\<lambda>a. \<lparr>f_success = False, f_data = NoData, f_error = None\<rparr>"] e p h
  show ?thesis by (auto simp add: error_or_def fetches_simps)
qed

section \<open>The batch executor without entities\<close>

lemma entities_of_none:
  assumes "map_of ps ''driver'' = Some (PList [])
           \<or> (\<not> is_list (map_of ps ''driver'')
               \<and> (map_of ps ''constructor'' = Some (PList []) \<or> \<not> is_list (map_of ps ''constructor'')))"
  shows "fst (entities_of ps) = [] \<or> fst (snd (entities_of ps)) = None"
  using assms by (auto simp: entities_of_def is_list_def split: option.splits pyval.splits)

text \<open>
  Claim C9: when the entity list that \<^verbatim>\<open>_process_parallel\<close> settles on is empty, or when
  neither \<^verbatim>\<open>driver\<close> nor \<^verbatim>\<open>constructor\<close> is a list, the result is the failure with
  \<^verbatim>\<open>success\<close> false, no data, the message \<^verbatim>\<open>No parallel entities found\<close> and a timestamp, and
  the run has no event: nothing is fetched.
\<close>

theorem no_entities_fails:
  assumes "map_of (params r) ''driver'' = Some (PList [])
           \<or> (\<not> is_list (map_of (params r) ''driver'')
               \<and> (map_of (params r) ''constructor'' = Some (PList [])
                    \<or> \<not> is_list (map_of (params r) ''constructor'')))"
  shows "process_parallel e r =
           Inr (\<lparr>success = False, data = None, error = Some ''No parallel entities found'',
                 metadata = [(''timestamp'', MStr (now_iso e))]\<rparr>, [])"
proof -
  obtain es ty base where eo: "entities_of (params r) = (es, ty, base)"
    by (cases "entities_of (params r)") auto
  with entities_of_none [OF assms] have "es = [] \<or> ty = None" by simp
  then have "(if es = [] then None else ty) = None" by auto
  with eo show ?thesis by (simp add: process_parallel_def)
qed

theorem no_entities_fails_witness:
  "process_parallel env_up \<lparr>endpoint = ''DRIVERS.specific'', params = [(''driver'', PList [])]\<rparr> =
     Inr (\<lparr>success = False, data = None, error = Some ''No parallel entities found'',
           metadata = [(''timestamp'', MStr ''2026-03-01T12:00:00'')]\<rparr>, [])"
proof -
  have "map_of (params \<lparr>endpoint = ''DRIVERS.specific'', params = [(''driver'', PList [])]\<rparr>) ''driver''
          = Some (PList [])" by simp
  then show ?thesis
    using no_entities_fails [of "\<lparr>endpoint = ''DRIVERS.specific'', params = [(''driver'', PList [])]\<rparr>" env_up]
    by (simp add: env_up_def)
qed

section \<open>The row-concatenation merge\<close>


lemma set_column_nonempty: "\<not> df_empty df \<Longrightarrow> \<not> df_empty (set_column col t df)"
  by (simp add: df_empty_def set_column_def)

lemma set_column_twice: "set_column col t (set_column col t' df) = set_column col t df"
  by (simp add: set_column_def comp_def)

lemma concat_frames_nonempty: "\<not> df_empty a \<Longrightarrow> \<not> df_empty b \<Longrightarrow> \<not> df_empty (concat_frames a b)"
  by (simp add: df_empty_def concat_frames_def)

lemma retagged_refl: "retagged objects col objects"
  by (simp add: retagged_def)

lemma retagged_empty: "retagged objects col fs \<Longrightarrow> df_empty (fs a) = df_empty (objects a)"
  unfolding retagged_def using set_column_nonempty by metis


lemma retagged_update:
  assumes "retagged objects col fs" and "\<not> df_empty (objects a)"
  shows "retagged objects col (fs(a := set_column col t (fs a)))"
  unfolding retagged_def
proof
  fix b
  show "(fs(a := set_column col t (fs a))) b = objects b \<or>
          (\<not> df_empty (objects b) \<and> (\<exists>t'. (fs(a := set_column col t (fs a))) b = set_column col t' (objects b)))"
  proof (cases "b = a")
    case False
    with assms(1) show ?thesis by (simp add: retagged_def)
  next
    case True
    from assms(1) have "fs a = objects a \<or> (\<exists>t'. fs a = set_column col t' (objects a))"
      by (auto simp: retagged_def)
    then have "set_column col t (fs a) = set_column col t (objects a)"
      by (auto simp: set_column_twice)
    with True assms(2) show ?thesis by auto
  qed
qed

lemma contributes_iff:
  "contributes objects x \<longleftrightarrow>
     (\<exists>r a. x = Inr r \<and> u_success r \<and> u_data r = Some a \<and> \<not> df_empty (objects a))"
  by (cases x) (auto simp: contributes_def unit_ok_def unit_frame_def unit_ref_def split: option.splits)



lemma step_other:
  assumes "retagged objects col (ms_frames st)" and "\<not> contributes objects (snd tr)"
  shows "ms_frames (merge_rows_step col label st tr) = ms_frames st"
    and "ms_merged (merge_rows_step col label st tr) = ms_merged st"
  using assms retagged_empty [OF assms(1)]
  by (auto simp: merge_rows_step_def contributes_iff split: sum.splits option.splits)

lemma step_contributor:
  assumes "retagged objects col (ms_frames st)"
    and "snd tr = Inr r" "u_success r" "u_data r = Some a" "\<not> df_empty (objects a)"
  shows "ms_frames (merge_rows_step col label st tr)
           = (ms_frames st)(a := set_column col (fst tr) (ms_frames st a))"
    and "ms_merged (merge_rows_step col label st tr)
           = (case ms_merged st of
                Own df \<Rightarrow>
                  if df_empty df then Shared a
                  else Own (concat_frames df (set_column col (fst tr) (ms_frames st a)))
              | Shared b \<Rightarrow>
                  if df_empty (((ms_frames st)(a := set_column col (fst tr) (ms_frames st a))) b)
                  then Shared a
                  else Own (concat_frames
                         (((ms_frames st)(a := set_column col (fst tr) (ms_frames st a))) b)
                         (set_column col (fst tr) (ms_frames st a))))"
proof -
  have ne: "\<not> df_empty (ms_frames st a)"
    using assms(1,5) by (simp add: retagged_empty)
  show "ms_frames (merge_rows_step col label st tr)
           = (ms_frames st)(a := set_column col (fst tr) (ms_frames st a))"
    using assms(2,3,4) ne by (simp add: merge_rows_step_def Let_def)
  show "ms_merged (merge_rows_step col label st tr)
           = (case ms_merged st of
                Own df \<Rightarrow>
                  if df_empty df then Shared a
                  else Own (concat_frames df (set_column col (fst tr) (ms_frames st a)))
              | Shared b \<Rightarrow>
                  if df_empty (((ms_frames st)(a := set_column col (fst tr) (ms_frames st a))) b)
                  then Shared a
                  else Own (concat_frames
                         (((ms_frames st)(a := set_column col (fst tr) (ms_frames st a))) b)
                         (set_column col (fst tr) (ms_frames st a))))"
    using assms(2,3,4) ne
    by (cases "ms_merged st") (simp_all add: merge_rows_step_def Let_def merged_frame_def)
qed

lemma step_retagged:
  assumes "retagged objects col (ms_frames st)"
  shows "retagged objects col (ms_frames (merge_rows_step col label st tr))"
proof (cases "contributes objects (snd tr)")
  case False
  with assms show ?thesis by (simp add: step_other)
next
  case True
  then obtain r a where c: "snd tr = Inr r" "u_success r" "u_data r = Some a" "\<not> df_empty (objects a)"
    by (auto simp: contributes_iff)
  show ?thesis
    unfolding step_contributor(1) [OF assms c] using assms c(4) by (rule retagged_update)
qed

lemma merge_rows_step_success:
  "ms_success (merge_rows_step col label st tr) = (ms_success st \<and> unit_ok (snd tr))"
  by (auto simp: merge_rows_step_def unit_ok_def Let_def split: sum.splits option.splits)

lemma foldl_merge_rows_success:
  "ms_success (foldl (merge_rows_step col label) st trs)
     = (ms_success st \<and> list_all (\<lambda>tr. unit_ok (snd tr)) trs)"
  by (induction trs arbitrary: st) (auto simp: merge_rows_step_success)

lemma merge_rows_success:
  "ms_success (merge_rows objects col label trs) = list_all (\<lambda>tr. unit_ok (snd tr)) trs"
  by (simp add: merge_rows_def foldl_merge_rows_success)

lemma step_empty:
  assumes "retagged objects col (ms_frames st)"
  shows "df_empty (merged_frame (merge_rows_step col label st tr))
           = (df_empty (merged_frame st) \<and> \<not> contributes objects (snd tr))"
proof (cases "contributes objects (snd tr)")
  case False
  with assms show ?thesis
    by (cases "ms_merged st") (simp_all add: merged_frame_def step_other)
next
  case True
  then obtain r a where c: "snd tr = Inr r" "u_success r" "u_data r = Some a" "\<not> df_empty (objects a)"
    by (auto simp: contributes_iff)
  note fr = step_contributor(1) [OF assms c, of label]
  note mg = step_contributor(2) [OF assms c, of label]
  have ne: "\<not> df_empty (ms_frames st a)" using assms c(4) by (simp add: retagged_empty)
  then have ne': "\<not> df_empty (set_column col (fst tr) (ms_frames st a))"
    by (rule set_column_nonempty)
  have "\<not> df_empty (merged_frame (merge_rows_step col label st tr))"
  proof (cases "ms_merged st")
    case (Own df)
    then show ?thesis
      using ne' by (simp add: merged_frame_def fr mg concat_frames_nonempty)
  next
    case (Shared b)
    then show ?thesis
      using ne' by (auto simp: merged_frame_def fr mg concat_frames_nonempty)
  qed
  with True show ?thesis by simp
qed

lemma foldl_empty:
  assumes "retagged objects col (ms_frames st)"
  shows "df_empty (merged_frame (foldl (merge_rows_step col label) st trs))
           = (df_empty (merged_frame st) \<and> (\<forall>tr \<in> set trs. \<not> contributes objects (snd tr)))"
  using assms
proof (induction trs arbitrary: st)
  case Nil
  then show ?case by simp
next
  case (Cons tr trs)
  have "retagged objects col (ms_frames (merge_rows_step col label st tr))"
    using Cons.prems by (rule step_retagged)
  from Cons.IH [OF this] step_empty [OF Cons.prems] show ?case by auto
qed

lemma merge_rows_empty:
  "df_empty (merged_frame (merge_rows objects col label trs))
     = (\<forall>tr \<in> set trs. \<not> contributes objects (snd tr))"
proof -
  let ?st = "\<lparr>ms_success = True, ms_frames = objects, ms_merged = Own empty_frame, ms_errors = []\<rparr>"
  have "retagged objects col (ms_frames ?st)" by (simp add: retagged_refl)
  from foldl_empty [OF this, of label trs] show ?thesis
    by (simp add: merge_rows_def merged_frame_def empty_frame_def df_empty_def)
qed

lemma merge_rows_all_empty:
  assumes "\<forall>tr \<in> set trs. \<forall>d. unit_frame objects (snd tr) = Some d \<longrightarrow> df_empty d"
  shows "df_empty (merged_frame (merge_rows objects col label trs))"
  unfolding merge_rows_empty using assms
  by (auto simp: contributes_def split: option.splits)











section \<open>The keyed merge and the batches\<close>

lemma merge_keyed_step_success:
  "ks_success (merge_keyed_step st tr) = (ks_success st \<and> unit_ok (snd tr))"
  by (auto simp: merge_keyed_step_def unit_ok_def Let_def split: sum.splits option.splits)

lemma foldl_merge_keyed_success:
  "ks_success (foldl merge_keyed_step st trs)
     = (ks_success st \<and> list_all (\<lambda>tr. unit_ok (snd tr)) trs)"
  by (induction trs arbitrary: st) (auto simp: merge_keyed_step_success)

lemma merge_keyed_success:
  "ks_success (merge_keyed trs) = list_all (\<lambda>tr. unit_ok (snd tr)) trs"
  by (simp add: merge_keyed_def foldl_merge_keyed_success)

lemma merge_keyed_step_empty:
  assumes "\<forall>kd \<in> set (ks_merged st). df_empty (objects (snd kd))"
    and "\<forall>d. unit_frame objects (snd tr) = Some d \<longrightarrow> df_empty d"
  shows "\<forall>kd \<in> set (ks_merged (merge_keyed_step st tr)). df_empty (objects (snd kd))"
proof (cases "snd tr")
  case (Inl x)
  with assms show ?thesis by (simp add: merge_keyed_step_def)
next
  case (Inr u)
  show ?thesis
  proof (cases "u_success u \<and> u_data u \<noteq> None")
    case False
    with Inr assms show ?thesis by (auto simp: merge_keyed_step_def Let_def)
  next
    case True
    then obtain a where a: "u_data u = Some a" by auto
    with Inr assms(2) have "df_empty (objects a)" by (simp add: unit_frame_def unit_ref_def)
    moreover have "ks_merged (merge_keyed_step st tr)
        = AList.update (str_scalar (fst tr)) a (ks_merged st)"
      using Inr True a by (simp add: merge_keyed_step_def Let_def)
    ultimately show ?thesis
      using assms(1) set_update_subset [of "str_scalar (fst tr)" a "ks_merged st"] by auto
  qed
qed

lemma foldl_merge_keyed_empty:
  assumes "\<forall>kd \<in> set (ks_merged st). df_empty (objects (snd kd))"
    and "\<forall>tr \<in> set trs. \<forall>d. unit_frame objects (snd tr) = Some d \<longrightarrow> df_empty d"
  shows "\<forall>kd \<in> set (ks_merged (foldl merge_keyed_step st trs)). df_empty (objects (snd kd))"
  using assms
proof (induction trs arbitrary: st)
  case Nil
  then show ?case by simp
next
  case (Cons tr trs)
  have "\<forall>kd \<in> set (ks_merged (merge_keyed_step st tr)). df_empty (objects (snd kd))"
    using Cons.prems by (intro merge_keyed_step_empty) simp_all
  then have "\<forall>kd \<in> set (ks_merged (foldl merge_keyed_step (merge_keyed_step st tr) trs)).
               df_empty (objects (snd kd))"
    using Cons.prems by (intro Cons.IH) simp_all
  then show ?case by simp
qed

lemma merge_keyed_empty:
  assumes "\<forall>tr \<in> set trs. \<forall>d. unit_frame objects (snd tr) = Some d \<longrightarrow> df_empty d"
  shows "\<not> list_ex (\<lambda>df. \<not> df_empty (objects df)) (map snd (ks_merged (merge_keyed trs)))"
proof -
  have "\<forall>kd \<in> set (ks_merged (merge_keyed trs)). df_empty (objects (snd kd))"
    unfolding merge_keyed_def using assms by (intro foldl_merge_keyed_empty) simp_all
  then show ?thesis by (auto simp: list_ex_iff)
qed

lemma list_all_zip_snd:
  "length xs = length ys \<Longrightarrow> list_all (\<lambda>tr. P (snd tr)) (zip xs ys) = list_all P ys"
  by (induction xs ys rule: list_induct2) simp_all

lemma set_zip_snd: "tr \<in> set (zip xs ys) \<Longrightarrow> snd tr \<in> set ys"
  by (cases tr) (auto dest: set_zip_rightD)

lemma gather_results: "fst (gather e reqs) = map (\<lambda>q. fst (process_single e q)) reqs"
  by (simp add: gather_def Let_def comp_def)

lemma concat_batches: "concat (batches xs) = xs"
proof (induction xs rule: batches.induct)
  case (1 xs)
  show ?case
  proof (cases "xs = []")
    case True
    then show ?thesis by (subst batches.simps) simp
  next
    case False
    with 1 have ih: "concat (batches (drop batch_size xs)) = drop batch_size xs" by simp
    have "batches xs = take batch_size xs # batches (drop batch_size xs)"
      using False by (subst batches.simps) simp
    then show ?thesis using ih by simp
  qed
qed

lemma run_batches_results:
  "fst (run_batches e r base ty bs)
     = map (\<lambda>en. fst (process_single e (entity_req r base ty en))) (concat bs)"
proof (induction bs)
  case Nil
  then show ?case by simp
next
  case (Cons b bs)
  obtain res evs where g: "gather e (map (entity_req r base ty) b) = (res, evs)"
    by (cases "gather e (map (entity_req r base ty) b)")
  obtain res' evs' where rb: "run_batches e r base ty bs = (res', evs')"
    by (cases "run_batches e r base ty bs")
  have "res = map (\<lambda>en. fst (process_single e (entity_req r base ty en))) b"
    using gather_results [of e "map (entity_req r base ty) b"] g by (simp add: comp_def)
  moreover have "res' = map (\<lambda>en. fst (process_single e (entity_req r base ty en))) (concat bs)"
    using Cons.IH rb by simp
  ultimately show ?case using g rb by simp
qed

lemma run_batches_entities:
  "fst (run_batches e r base ty (batches es))
     = map (\<lambda>en. fst (process_single e (entity_req r base ty en))) es"
  unfolding run_batches_results concat_batches by (rule refl)

section \<open>What the pipeline returns\<close>

lemma classify_cases:
  "classify r = Historical \<longleftrightarrow> is_historical_query r"
  "classify r = Career \<longleftrightarrow> \<not> is_historical_query r \<and> is_career_query r"
  "classify r = MultiEntity \<longleftrightarrow>
     \<not> is_historical_query r \<and> \<not> is_career_query r \<and> is_multi_entity_query r"
  "classify r = Single \<longleftrightarrow>
     \<not> is_historical_query r \<and> \<not> is_career_query r \<and> \<not> is_multi_entity_query r"
  by (simp_all add: classify_def)

lemma length_gather: "length (fst (gather e reqs)) = length reqs"
  by (simp add: gather_results)

lemma process_historical_failed:
  assumes "classify r = Historical" and "split_historical (now_year e) r = Inl x"
  shows "\<not> success (fst (process e r))"
  using assms by (simp add: classify_cases process_def process_historical_def)

lemma process_historical_out:
  assumes "classify r = Historical" and "split_historical (now_year e) r = Inr units"
  shows "unit_results e r = fst (gather e (map single_req units))"
    and "success (fst (process e r))
           = (ms_success (merge_rows (frame_objects e) ''year'' year_label
                 (zip (map (snd \<circ> su_metadata) units) (unit_results e r)))
              \<and> \<not> df_empty (merged_frame (merge_rows (frame_objects e) ''year'' year_label
                 (zip (map (snd \<circ> su_metadata) units) (unit_results e r)))))"
    and "data (fst (process e r))
           = (if \<not> df_empty (merged_frame (merge_rows (frame_objects e) ''year'' year_label
                 (zip (map (snd \<circ> su_metadata) units) (unit_results e r))))
              then Some (Results (merged_frame (merge_rows (frame_objects e) ''year'' year_label
                 (zip (map (snd \<circ> su_metadata) units) (unit_results e r)))))
              else None)"
proof -
  show u: "unit_results e r = fst (gather e (map single_req units))"
    using assms by (simp add: unit_results_def)
  obtain res evs where g: "gather e (map single_req units) = (res, evs)"
    by (cases "gather e (map single_req units)")
  with u have res: "unit_results e r = res" by simp
  have p: "process e r = (case process_historical e r of Inr out \<Rightarrow> out | Inl x \<Rightarrow>
          (\<lparr>success = False, data = None, error = Some (exn_msg x),
            metadata = [(''timestamp'', MStr (now_iso e)), (''error_type'', MStr (exn_type x))]\<rparr>, []))"
    using assms(1) by (simp add: classify_cases process_def)
  show "success (fst (process e r))
           = (ms_success (merge_rows (frame_objects e) ''year'' year_label
                 (zip (map (snd \<circ> su_metadata) units) (unit_results e r)))
              \<and> \<not> df_empty (merged_frame (merge_rows (frame_objects e) ''year'' year_label
                 (zip (map (snd \<circ> su_metadata) units) (unit_results e r)))))"
    unfolding p res using assms(2) g by (simp add: process_historical_def Let_def)
  show "data (fst (process e r))
           = (if \<not> df_empty (merged_frame (merge_rows (frame_objects e) ''year'' year_label
                 (zip (map (snd \<circ> su_metadata) units) (unit_results e r))))
              then Some (Results (merged_frame (merge_rows (frame_objects e) ''year'' year_label
                 (zip (map (snd \<circ> su_metadata) units) (unit_results e r)))))
              else None)"
    unfolding p res using assms(2) g by (simp add: process_historical_def Let_def)
qed

lemma process_career_out:
  assumes "classify r = Career"
  shows "unit_results e r = fst (gather e (map single_req (split_career r)))"
    and "success (fst (process e r))
           = (ks_success (merge_keyed (zip (map (snd \<circ> su_metadata) (split_career r)) (unit_results e r)))
              \<and> list_ex (\<lambda>df. \<not> df_empty (frame_objects e df))
                   (map snd (ks_merged (merge_keyed
                      (zip (map (snd \<circ> su_metadata) (split_career r)) (unit_results e r))))))"
    and "data (fst (process e r))
           = (if ks_merged (merge_keyed (zip (map (snd \<circ> su_metadata) (split_career r)) (unit_results e r))) \<noteq> []
              then Some (Keyed (map (\<lambda>kd. (fst kd, frame_objects e (snd kd)))
                      (ks_merged (merge_keyed
                      (zip (map (snd \<circ> su_metadata) (split_career r)) (unit_results e r))))))
              else None)"
proof -
  show u: "unit_results e r = fst (gather e (map single_req (split_career r)))"
    using assms by (simp add: unit_results_def)
  obtain res evs where g: "gather e (map single_req (split_career r)) = (res, evs)"
    by (cases "gather e (map single_req (split_career r))")
  with u have res: "unit_results e r = res" by simp
  have p: "process e r = (case process_career e r of Inr out \<Rightarrow> out | Inl x \<Rightarrow>
          (\<lparr>success = False, data = None, error = Some (exn_msg x),
            metadata = [(''timestamp'', MStr (now_iso e)), (''error_type'', MStr (exn_type x))]\<rparr>, []))"
    using assms(1) by (simp add: classify_cases process_def)
  show "success (fst (process e r))
           = (ks_success (merge_keyed (zip (map (snd \<circ> su_metadata) (split_career r)) (unit_results e r)))
              \<and> list_ex (\<lambda>df. \<not> df_empty (frame_objects e df))
                   (map snd (ks_merged (merge_keyed
                      (zip (map (snd \<circ> su_metadata) (split_career r)) (unit_results e r))))))"
    unfolding p res using g by (simp add: process_career_def Let_def)
  show "data (fst (process e r))
           = (if ks_merged (merge_keyed (zip (map (snd \<circ> su_metadata) (split_career r)) (unit_results e r))) \<noteq> []
              then Some (Keyed (map (\<lambda>kd. (fst kd, frame_objects e (snd kd)))
                      (ks_merged (merge_keyed
                      (zip (map (snd \<circ> su_metadata) (split_career r)) (unit_results e r))))))
              else None)"
    unfolding p res using g by (simp add: process_career_def Let_def)
qed

lemma process_parallel_failed:
  assumes "classify r = MultiEntity" and "entities_of (params r) = (es, ty, base)"
    and "es = [] \<or> ty = None"
  shows "\<not> success (fst (process e r))"
proof -
  from assms(3) have "(if es = [] then None else ty) = None" by auto
  then show ?thesis
    using assms(1,2) by (simp add: classify_cases process_def process_parallel_def)
qed

lemma process_parallel_out:
  assumes "classify r = MultiEntity" and "entities_of (params r) = (es, Some ty, base)"
    and "es \<noteq> []"
  shows "unit_results e r = map (\<lambda>en. fst (process_single e (entity_req r base ty en))) es"
    and "success (fst (process e r))
           = (ms_success (merge_rows (frame_objects e) ty str_scalar (zip es (unit_results e r)))
              \<and> \<not> df_empty (merged_frame (merge_rows (frame_objects e) ty str_scalar (zip es (unit_results e r)))))"
    and "data (fst (process e r))
           = (if \<not> df_empty (merged_frame (merge_rows (frame_objects e) ty str_scalar (zip es (unit_results e r))))
              then Some (Results (merged_frame (merge_rows (frame_objects e) ty str_scalar (zip es (unit_results e r)))))
              else None)"
proof -
  have u0: "unit_results e r = fst (run_batches e r base ty (batches es))"
    using assms(1,2) by (simp add: unit_results_def)
  then show u: "unit_results e r = map (\<lambda>en. fst (process_single e (entity_req r base ty en))) es"
    by (simp only: run_batches_entities)
  obtain res evs where g: "run_batches e r base ty (batches es) = (res, evs)"
    by (cases "run_batches e r base ty (batches es)")
  with u0 have res: "unit_results e r = res" by simp
  have p: "process e r = (case process_parallel e r of Inr out \<Rightarrow> out | Inl x \<Rightarrow>
          (\<lparr>success = False, data = None, error = Some (exn_msg x),
            metadata = [(''timestamp'', MStr (now_iso e)), (''error_type'', MStr (exn_type x))]\<rparr>, []))"
    using assms(1) by (simp add: classify_cases process_def)
  show "success (fst (process e r))
           = (ms_success (merge_rows (frame_objects e) ty str_scalar (zip es (unit_results e r)))
              \<and> \<not> df_empty (merged_frame (merge_rows (frame_objects e) ty str_scalar (zip es (unit_results e r)))))"
    unfolding p res using assms(2,3) g by (simp add: process_parallel_def Let_def)
  show "data (fst (process e r))
           = (if \<not> df_empty (merged_frame (merge_rows (frame_objects e) ty str_scalar (zip es (unit_results e r))))
              then Some (Results (merged_frame (merge_rows (frame_objects e) ty str_scalar (zip es (unit_results e r)))))
              else None)"
    unfolding p res using assms(2,3) g by (simp add: process_parallel_def Let_def)
qed

lemma process_single_out:
  assumes "classify r = Single"
  shows "success (fst (process e r)) = list_all unit_ok (unit_results e r)"
proof -
  obtain u where u: "fst (process_single e (Some r)) = Inr u"
    using process_single_returns [of e "Some r"] by blast
  obtain evs where ps: "process_single e (Some r) = (Inr u, evs)"
    using u by (cases "process_single e (Some r)") simp
  have "process e r = (response_of (frame_objects e) u, evs)"
    using assms ps by (simp add: classify_cases process_def process_one_def)
  moreover have "unit_results e r = [Inr u]"
    using assms u by (simp add: unit_results_def)
  ultimately show ?thesis by (simp add: response_of_def unit_ok_def)
qed

lemma process_single_env_up:
  assumes "endpoint q \<noteq> []" and "normalize_params (params q) \<noteq> []"
  shows "fst (process_single env_up (Some q)) =
     Inr \<lparr>u_success = True, u_data = Some 0, u_error = None,
          u_metadata = [(''endpoint'', MStr (''/'' @ endpoint q)),
                        (''params'', MParams (normalize_params (params q))),
                        (''timestamp'', MStr ''2026-03-01T12:00:00''),
                        (''attempt'', MInt 1), (''rows'', MInt 2)]\<rparr>"
proof -
  have "attempt_once env_up (endpoint q) (normalize_params (params q)) 0 =
     (Return \<lparr>u_success = True, u_data = Some 0, u_error = None,
          u_metadata = [(''endpoint'', MStr (''/'' @ endpoint q)),
                        (''params'', MParams (normalize_params (params q))),
                        (''timestamp'', MStr ''2026-03-01T12:00:00''),
                        (''attempt'', MInt 1), (''rows'', MInt 2)]\<rparr>,
      [Fetch (''/'' @ endpoint q) (normalize_params (params q))])"
    by (simp add: attempt_once_def try_block_def env_up_def some_frames_def two_rows_def)
  then show ?thesis
    using assms by (simp add: process_single_def Let_def upt_max_retries)
qed

lemma split_career_units:
  "split_career r =
     [\<lparr>su_endpoint = ''DRIVERS.specific'', su_params = params r,
       su_metadata = (''metric'', SStr ''career_stats'')\<rparr>,
      \<lparr>su_endpoint = ''RESULTS.race'', su_params = params r,
       su_metadata = (''metric'', SStr ''race_results'')\<rparr>,
      \<lparr>su_endpoint = ''QUALIFYING.race'', su_params = params r,
       su_metadata = (''metric'', SStr ''qualifying_results'')\<rparr>,
      \<lparr>su_endpoint = ''STANDINGS.driver_season'', su_params = params r,
       su_metadata = (''metric'', SStr ''championship_standings'')\<rparr>]"
  by (simp add: split_career_def metrics_def)

lemma unit_ok_frame:
  assumes "fst (process_single e q) = x" and "unit_ok x"
  shows "\<exists>u a. x = Inr u \<and> u_success u \<and> u_data u = Some a"
proof -
  from process_single_returns [of e q] assms(1) obtain u where u: "x = Inr u" "result_ok u"
    by auto
  with assms(2) have "u_success u" by (simp add: unit_ok_def)
  with u(2) have "u_data u \<noteq> None" by (simp add: result_ok_def)
  with u(1) \<open>u_success u\<close> show ?thesis by auto
qed

lemma merge_keyed_four:
  assumes "u_success u1" "u_data u1 = Some a1" "u_success u2" "u_data u2 = Some a2"
    "u_success u3" "u_data u3 = Some a3" "u_success u4" "u_data u4 = Some a4"
  shows "ks_merged (merge_keyed
           [(SStr ''career_stats'', Inr u1), (SStr ''race_results'', Inr u2),
            (SStr ''qualifying_results'', Inr u3), (SStr ''championship_standings'', Inr u4)])
         = [(''career_stats'', a1), (''race_results'', a2),
            (''qualifying_results'', a3), (''championship_standings'', a4)]"
  using assms by (simp add: merge_keyed_def merge_keyed_step_def)

text \<open>
  Claim C7: the career split gives exactly four units, whatever the parameters: the
  metrics \<^verbatim>\<open>career_stats\<close>, \<^verbatim>\<open>race_results\<close>, \<^verbatim>\<open>qualifying_results\<close> and
  \<^verbatim>\<open>championship_standings\<close>, in this order, each with its endpoint and with the
  parameters of the request unchanged. When the four dispatches all report success, the
  data of the career response map exactly these four keys to the datasets of the units.
\<close>

theorem career_split_and_merge:
  "split_career r =
     [\<lparr>su_endpoint = ''DRIVERS.specific'', su_params = params r,
       su_metadata = (''metric'', SStr ''career_stats'')\<rparr>,
      \<lparr>su_endpoint = ''RESULTS.race'', su_params = params r,
       su_metadata = (''metric'', SStr ''race_results'')\<rparr>,
      \<lparr>su_endpoint = ''QUALIFYING.race'', su_params = params r,
       su_metadata = (''metric'', SStr ''qualifying_results'')\<rparr>,
      \<lparr>su_endpoint = ''STANDINGS.driver_season'', su_params = params r,
       su_metadata = (''metric'', SStr ''championship_standings'')\<rparr>]
   \<and> (list_all unit_ok (fst (gather e (map single_req (split_career r)))) \<longrightarrow>
        (\<exists>d1 d2 d3 d4 resp evs.
            map (unit_frame (frame_objects e)) (fst (gather e (map single_req (split_career r))))
              = [Some d1, Some d2, Some d3, Some d4]
          \<and> process_career e r = Inr (resp, evs)
          \<and> data resp = Some (Keyed [(''career_stats'', d1), (''race_results'', d2),
                 (''qualifying_results'', d3), (''championship_standings'', d4)])))"
proof (intro conjI impI)
  show "split_career r =
     [\<lparr>su_endpoint = ''DRIVERS.specific'', su_params = params r,
       su_metadata = (''metric'', SStr ''career_stats'')\<rparr>,
      \<lparr>su_endpoint = ''RESULTS.race'', su_params = params r,
       su_metadata = (''metric'', SStr ''race_results'')\<rparr>,
      \<lparr>su_endpoint = ''QUALIFYING.race'', su_params = params r,
       su_metadata = (''metric'', SStr ''qualifying_results'')\<rparr>,
      \<lparr>su_endpoint = ''STANDINGS.driver_season'', su_params = params r,
       su_metadata = (''metric'', SStr ''championship_standings'')\<rparr>]"
    by (rule split_career_units)
next
  let ?q1 = "Some \<lparr>endpoint = ''DRIVERS.specific'', params = params r\<rparr>"
  let ?q2 = "Some \<lparr>endpoint = ''RESULTS.race'', params = params r\<rparr>"
  let ?q3 = "Some \<lparr>endpoint = ''QUALIFYING.race'', params = params r\<rparr>"
  let ?q4 = "Some \<lparr>endpoint = ''STANDINGS.driver_season'', params = params r\<rparr>"
  have res: "fst (gather e (map single_req (split_career r)))
      = [fst (process_single e ?q1), fst (process_single e ?q2),
         fst (process_single e ?q3), fst (process_single e ?q4)]"
    by (simp add: gather_results split_career_units single_req_def)
  assume "list_all unit_ok (fst (gather e (map single_req (split_career r))))"
  then have ok: "unit_ok (fst (process_single e ?q1))" "unit_ok (fst (process_single e ?q2))"
    "unit_ok (fst (process_single e ?q3))" "unit_ok (fst (process_single e ?q4))"
    unfolding res by simp_all
  from unit_ok_frame [OF refl ok(1)] obtain u1 a1 where
    1: "fst (process_single e ?q1) = Inr u1" "u_success u1" "u_data u1 = Some a1" by blast
  from unit_ok_frame [OF refl ok(2)] obtain u2 a2 where
    2: "fst (process_single e ?q2) = Inr u2" "u_success u2" "u_data u2 = Some a2" by blast
  from unit_ok_frame [OF refl ok(3)] obtain u3 a3 where
    3: "fst (process_single e ?q3) = Inr u3" "u_success u3" "u_data u3 = Some a3" by blast
  from unit_ok_frame [OF refl ok(4)] obtain u4 a4 where
    4: "fst (process_single e ?q4) = Inr u4" "u_success u4" "u_data u4 = Some a4" by blast
  have res': "fst (gather e (map single_req (split_career r))) = [Inr u1, Inr u2, Inr u3, Inr u4]"
    unfolding res by (simp add: 1 2 3 4)
  have frames: "map (unit_frame (frame_objects e)) (fst (gather e (map single_req (split_career r))))
              = [Some (frame_objects e a1), Some (frame_objects e a2),
                 Some (frame_objects e a3), Some (frame_objects e a4)]"
    unfolding res' by (simp add: unit_frame_def unit_ref_def 1 2 3 4)
  obtain evs where g: "gather e (map single_req (split_career r)) = ([Inr u1, Inr u2, Inr u3, Inr u4], evs)"
    using res' by (cases "gather e (map single_req (split_career r))") simp
  have tags: "zip (map (snd \<circ> su_metadata) (split_career r)) [Inr u1, Inr u2, Inr u3, Inr u4]
      = [(SStr ''career_stats'', Inr u1), (SStr ''race_results'', Inr u2),
            (SStr ''qualifying_results'', Inr u3), (SStr ''championship_standings'', Inr u4)]"
    by (simp add: split_career_units)
  note m = merge_keyed_four [OF 1(2,3) 2(2,3) 3(2,3) 4(2,3)]
  define resp where "resp = fst (projr (process_career e r))"
  have pc: "process_career e r = Inr (resp, evs)"
    unfolding resp_def process_career_def Let_def g prod.case by simp
  have dt: "data resp = Some (Keyed [(''career_stats'', frame_objects e a1),
                 (''race_results'', frame_objects e a2),
                 (''qualifying_results'', frame_objects e a3),
                 (''championship_standings'', frame_objects e a4)])"
    unfolding resp_def process_career_def Let_def g prod.case tags m by simp
  from frames pc dt show "\<exists>d1 d2 d3 d4 resp evs.
            map (unit_frame (frame_objects e)) (fst (gather e (map single_req (split_career r))))
              = [Some d1, Some d2, Some d3, Some d4]
          \<and> process_career e r = Inr (resp, evs)
          \<and> data resp = Some (Keyed [(''career_stats'', d1), (''race_results'', d2),
                 (''qualifying_results'', d3), (''championship_standings'', d4)])"
    apply -
    apply (rule exI [of _ "frame_objects e a1"])
    apply (rule exI [of _ "frame_objects e a2"])
    apply (rule exI [of _ "frame_objects e a3"])
    apply (rule exI [of _ "frame_objects e a4"])
    apply (rule exI [of _ resp])
    apply (rule exI [of _ evs])
    apply (intro conjI)
      apply assumption
     apply assumption
    apply assumption
    done
qed

theorem career_split_and_merge_witness:
  "\<exists>resp evs.
     process_career env_up \<lparr>endpoint = ''DRIVERS.specific'', params = [(''query'', Scalar (SStr ''career stats''))]\<rparr>
       = Inr (resp, evs)
     \<and> data resp = Some (Keyed [(''career_stats'', two_rows), (''race_results'', two_rows),
                 (''qualifying_results'', two_rows), (''championship_standings'', two_rows)])"
proof -
  let ?r = "\<lparr>endpoint = ''DRIVERS.specific'', params = [(''query'', Scalar (SStr ''career stats''))]\<rparr>"
  have n: "normalize_params [(''query'', Scalar (SStr ''career stats''))] \<noteq> []"
    by (simp add: normalize_params_def normalize_step_def Let_def)
  have g: "fst (gather env_up (map single_req (split_career ?r))) =
      map (\<lambda>ep. Inr \<lparr>u_success = True, u_data = Some 0, u_error = None,
          u_metadata = [(''endpoint'', MStr (''/'' @ ep)),
                        (''params'', MParams (normalize_params [(''query'', Scalar (SStr ''career stats''))])),
                        (''timestamp'', MStr ''2026-03-01T12:00:00''),
                        (''attempt'', MInt 1), (''rows'', MInt 2)]\<rparr>)
        [''DRIVERS.specific'', ''RESULTS.race'', ''QUALIFYING.race'', ''STANDINGS.driver_season'']"
    using n by (simp add: gather_results split_career_units single_req_def process_single_env_up)
  have ok: "list_all unit_ok (fst (gather env_up (map single_req (split_career ?r))))"
    unfolding g by (simp add: unit_ok_def)
  have fr: "map (unit_frame (frame_objects env_up)) (fst (gather env_up (map single_req (split_career ?r))))
      = [Some two_rows, Some two_rows, Some two_rows, Some two_rows]"
    unfolding g by (simp add: unit_frame_def unit_ref_def env_up_def some_frames_def)
  from career_split_and_merge [of ?r env_up] ok fr show ?thesis by auto
qed

lemma zip_frames_empty:
  assumes "\<forall>x \<in> set ys. \<forall>d. unit_frame objects x = Some d \<longrightarrow> df_empty d"
  shows "\<forall>tr \<in> set (zip xs ys). \<forall>d. unit_frame objects (snd tr) = Some d \<longrightarrow> df_empty d"
  using assms set_zip_snd by blast

lemma historical_success:
  assumes "classify r = Historical"
  shows "(success (fst (process e r)) \<longrightarrow>
            list_all unit_ok (unit_results e r) \<and> \<not> merged_empty (data (fst (process e r))))
         \<and> ((\<forall>x \<in> set (unit_results e r). \<forall>d. unit_frame (frame_objects e) x = Some d \<longrightarrow> df_empty d)
              \<longrightarrow> \<not> success (fst (process e r)))"
proof (cases "split_historical (now_year e) r")
  case (Inl x)
  with assms show ?thesis by (simp add: process_historical_failed)
next
  case (Inr units)
  note out = process_historical_out [OF assms Inr]
  have len: "length (map (snd \<circ> su_metadata) units) = length (unit_results e r)"
    by (simp add: out(1) length_gather)
  show ?thesis
  proof (intro conjI impI)
    assume s: "success (fst (process e r))"
    with out(2) show "list_all unit_ok (unit_results e r)"
      by (simp add: merge_rows_success list_all_zip_snd [OF len])
    from s out(2) out(3) show "\<not> merged_empty (data (fst (process e r)))"
      by (simp add: merged_empty_def)
  next
    assume "\<forall>x \<in> set (unit_results e r). \<forall>d. unit_frame (frame_objects e) x = Some d \<longrightarrow> df_empty d"
    then have "df_empty (merged_frame (merge_rows (frame_objects e) ''year'' year_label
                 (zip (map (snd \<circ> su_metadata) units) (unit_results e r))))"
      by (intro merge_rows_all_empty zip_frames_empty)
    with out(2) show "\<not> success (fst (process e r))" by simp
  qed
qed

lemma career_success:
  assumes "classify r = Career"
  shows "(success (fst (process e r)) \<longrightarrow>
            list_all unit_ok (unit_results e r) \<and> \<not> merged_empty (data (fst (process e r))))
         \<and> ((\<forall>x \<in> set (unit_results e r). \<forall>d. unit_frame (frame_objects e) x = Some d \<longrightarrow> df_empty d)
              \<longrightarrow> \<not> success (fst (process e r)))"
proof -
  note out = process_career_out [OF assms]
  have len: "length (map (snd \<circ> su_metadata) (split_career r)) = length (unit_results e r)"
    by (simp add: out(1) length_gather)
  show ?thesis
  proof (intro conjI impI)
    assume s: "success (fst (process e r))"
    with out(2) show "list_all unit_ok (unit_results e r)"
      by (simp add: merge_keyed_success list_all_zip_snd [OF len])
    from s out(2) have ex: "list_ex (\<lambda>df. \<not> df_empty (frame_objects e df))
                   (map snd (ks_merged (merge_keyed
                      (zip (map (snd \<circ> su_metadata) (split_career r)) (unit_results e r)))))"
      by simp
    then have "ks_merged (merge_keyed
                      (zip (map (snd \<circ> su_metadata) (split_career r)) (unit_results e r))) \<noteq> []"
      by auto
    with out(3) ex show "\<not> merged_empty (data (fst (process e r)))"
      by (simp add: merged_empty_def list_ex_iff list_all_iff comp_def)
  next
    assume "\<forall>x \<in> set (unit_results e r). \<forall>d. unit_frame (frame_objects e) x = Some d \<longrightarrow> df_empty d"
    then have "\<not> list_ex (\<lambda>df. \<not> df_empty (frame_objects e df))
                   (map snd (ks_merged (merge_keyed
                      (zip (map (snd \<circ> su_metadata) (split_career r)) (unit_results e r)))))"
      by (intro merge_keyed_empty zip_frames_empty)
    with out(2) show "\<not> success (fst (process e r))" by simp
  qed
qed

lemma multi_entity_success:
  assumes "classify r = MultiEntity"
  shows "(success (fst (process e r)) \<longrightarrow>
            list_all unit_ok (unit_results e r) \<and> \<not> merged_empty (data (fst (process e r))))
         \<and> ((\<forall>x \<in> set (unit_results e r). \<forall>d. unit_frame (frame_objects e) x = Some d \<longrightarrow> df_empty d)
              \<longrightarrow> \<not> success (fst (process e r)))"
proof -
  obtain es ty base where eo: "entities_of (params r) = (es, ty, base)"
    by (cases "entities_of (params r)") auto
  show ?thesis
  proof (cases "es = [] \<or> ty = None")
    case True
    from process_parallel_failed [OF assms eo True] show ?thesis by simp
  next
    case False
    then obtain t where t: "ty = Some t" and ne: "es \<noteq> []" by auto
    note out = process_parallel_out [OF assms eo [unfolded t] ne]
    have len: "length es = length (unit_results e r)" by (simp add: out(1))
    show ?thesis
    proof (intro conjI impI)
      assume s: "success (fst (process e r))"
      with out(2) show "list_all unit_ok (unit_results e r)"
        by (simp add: merge_rows_success list_all_zip_snd [OF len])
      from s out(2) out(3) show "\<not> merged_empty (data (fst (process e r)))"
        by (simp add: merged_empty_def)
    next
      assume "\<forall>x \<in> set (unit_results e r). \<forall>d. unit_frame (frame_objects e) x = Some d \<longrightarrow> df_empty d"
      then have "df_empty (merged_frame (merge_rows (frame_objects e) t str_scalar (zip es (unit_results e r))))"
        by (intro merge_rows_all_empty zip_frames_empty)
      with out(2) show "\<not> success (fst (process e r))" by simp
    qed
  qed
qed

text \<open>
  Claim C1, as stated, is about every processed request. For a request of the single
  strategy \<^verbatim>\<open>process\<close> returns the dictionary of the dispatcher, whose \<^verbatim>\<open>success\<close> is true as
  soon as the fetch reports success with a frame: with a fetch that returns a frame
  without rows the response has \<^verbatim>\<open>success\<close> true and an empty result.
\<close>

theorem single_success_empty:
  "classify \<lparr>endpoint = ''RESULTS.race'', params = [(''year'', Scalar (SStr ''2021''))]\<rparr> = Single
   \<and> success (fst (process env_empty
         \<lparr>endpoint = ''RESULTS.race'', params = [(''year'', Scalar (SStr ''2021''))]\<rparr>))
   \<and> merged_empty (data (fst (process env_empty
         \<lparr>endpoint = ''RESULTS.race'', params = [(''year'', Scalar (SStr ''2021''))]\<rparr>)))"
proof -
  let ?r = "\<lparr>endpoint = ''RESULTS.race'', params = [(''year'', Scalar (SStr ''2021''))]\<rparr>"
  have c: "\<not> is_historical_query ?r" "\<not> is_career_query ?r" "\<not> is_multi_entity_query ?r"
    by (simp_all add: is_historical_query_def is_career_query_def is_multi_entity_query_def
        is_long_list_def is_list_def str_get_def lower_def lower_char_def upper_letters_def
        lower_letters_def)
  have n: "normalize_params [(''year'', Scalar (SStr ''2021''))] = [(''year'', Scalar (SStr ''2021''))]"
    by (simp add: normalize_params_def normalize_step_def Let_def norm_str_def strip_def is_space_def)
  have a: "attempt_once env_empty ''RESULTS.race'' [(''year'', Scalar (SStr ''2021''))] 0 =
     (Return \<lparr>u_success = True, u_data = Some 2, u_error = None,
          u_metadata = [(''endpoint'', MStr ''/RESULTS.race''),
                        (''params'', MParams [(''year'', Scalar (SStr ''2021''))]),
                        (''timestamp'', MStr ''2026-03-01T12:00:00''),
                        (''attempt'', MInt 1), (''rows'', MInt 0)]\<rparr>,
      [Fetch ''/RESULTS.race'' [(''year'', Scalar (SStr ''2021''))]])"
    by (simp add: attempt_once_def try_block_def env_empty_def some_frames_def no_rows_def)
  have p: "fst (process env_empty ?r) =
     \<lparr>success = True, data = Some (Results no_rows), error = None,
      metadata = [(''endpoint'', MStr ''/RESULTS.race''),
                        (''params'', MParams [(''year'', Scalar (SStr ''2021''))]),
                        (''timestamp'', MStr ''2026-03-01T12:00:00''),
                        (''attempt'', MInt 1), (''rows'', MInt 0)]\<rparr>"
    using c by (simp add: process_def process_one_def process_single_def Let_def n upt_max_retries a
        response_of_def) (simp add: env_empty_def some_frames_def)
  show ?thesis
    unfolding p using c by (simp add: classify_def merged_empty_def df_empty_def no_rows_def)
qed

text \<open>
  Claim C1, amended: when the response of \<^verbatim>\<open>process\<close> has \<^verbatim>\<open>success\<close> true, no contributing
  unit failed, and for the historical, career and multi-entity strategies the merged
  result is not empty: the merged frame has rows, or at least one metric of the career
  mapping has a non-empty frame. For these three strategies, when every dataset that the
  units return is empty, \<^verbatim>\<open>success\<close> is false, even if every unit succeeded. (The single
  strategy has no merge; there \<^verbatim>\<open>success\<close> is the success of its one unit.)
\<close>

theorem process_success:
  "(success (fst (process e r)) \<longrightarrow>
      list_all unit_ok (unit_results e r)
      \<and> (classify r \<noteq> Single \<longrightarrow> \<not> merged_empty (data (fst (process e r)))))
   \<and> (classify r \<noteq> Single
        \<and> (\<forall>x \<in> set (unit_results e r). \<forall>d. unit_frame (frame_objects e) x = Some d \<longrightarrow> df_empty d)
      \<longrightarrow> \<not> success (fst (process e r)))"
proof (cases "classify r")
  case Historical
  with historical_success [OF Historical] show ?thesis by simp
next
  case Career
  with career_success [OF Career] show ?thesis by simp
next
  case MultiEntity
  with multi_entity_success [OF MultiEntity] show ?thesis by simp
next
  case Single
  with process_single_out [OF Single] show ?thesis by simp
qed

theorem process_success_witness:
  "success (fst (process env_up
      \<lparr>endpoint = ''CONSTRUCTORS.specific'', params = [(''constructor'', PList [SStr ''ferrari''])]\<rparr>))
   \<and> list_all unit_ok (unit_results env_up
      \<lparr>endpoint = ''CONSTRUCTORS.specific'', params = [(''constructor'', PList [SStr ''ferrari''])]\<rparr>)
   \<and> \<not> merged_empty (data (fst (process env_up
      \<lparr>endpoint = ''CONSTRUCTORS.specific'', params = [(''constructor'', PList [SStr ''ferrari''])]\<rparr>)))
   \<and> classify \<lparr>endpoint = ''CONSTRUCTORS.specific'', params = [(''constructor'', PList [SStr ''ferrari''])]\<rparr>
       \<noteq> Single
   \<and> list_all unit_ok (unit_results env_empty
      \<lparr>endpoint = ''CONSTRUCTORS.specific'', params = [(''constructor'', PList [SStr ''ferrari''])]\<rparr>)
   \<and> map (unit_frame (frame_objects env_empty)) (unit_results env_empty
      \<lparr>endpoint = ''CONSTRUCTORS.specific'', params = [(''constructor'', PList [SStr ''ferrari''])]\<rparr>)
       = [Some \<lparr>df_columns = [''position''], df_rows = []\<rparr>]
   \<and> \<not> success (fst (process env_empty
      \<lparr>endpoint = ''CONSTRUCTORS.specific'', params = [(''constructor'', PList [SStr ''ferrari''])]\<rparr>))"
proof -
  let ?r = "\<lparr>endpoint = ''CONSTRUCTORS.specific'', params = [(''constructor'', PList [SStr ''ferrari''])]\<rparr>"
  have c: "classify ?r = MultiEntity"
    by (simp add: classify_def is_historical_query_def is_career_query_def is_multi_entity_query_def
        is_long_list_def is_list_def str_get_def lower_def)
  have eo: "entities_of (params ?r) = ([SStr ''ferrari''], Some ''constructor'', [])"
    by (simp add: entities_of_def)
  have n: "normalize_params [(''constructor'', Scalar (SStr ''ferrari''))] \<noteq> []"
    by (simp add: normalize_params_def normalize_step_def Let_def)
  note out = process_parallel_out [OF c eo]
  have u: "unit_results env_up ?r =
      [Inr \<lparr>u_success = True, u_data = Some 0, u_error = None,
          u_metadata = [(''endpoint'', MStr ''/CONSTRUCTORS.specific''),
                        (''params'', MParams (normalize_params [(''constructor'', Scalar (SStr ''ferrari''))])),
                        (''timestamp'', MStr ''2026-03-01T12:00:00''),
                        (''attempt'', MInt 1), (''rows'', MInt 2)]\<rparr>]"
    using n by (simp add: out(1) entity_req_def process_single_env_up)
  have s: "success (fst (process env_up ?r))"
    unfolding out(2) [of env_up, simplified] u
    by (simp add: merge_rows_def merge_rows_step_def merged_frame_def Let_def df_empty_def
        env_up_def some_frames_def two_rows_def set_column_def empty_frame_def)
  have a: "attempt_once env_empty ''CONSTRUCTORS.specific''
             (normalize_params [(''constructor'', Scalar (SStr ''ferrari''))]) 0 =
     (Return \<lparr>u_success = True, u_data = Some 2, u_error = None,
          u_metadata = [(''endpoint'', MStr ''/CONSTRUCTORS.specific''),
                        (''params'', MParams (normalize_params [(''constructor'', Scalar (SStr ''ferrari''))])),
                        (''timestamp'', MStr ''2026-03-01T12:00:00''),
                        (''attempt'', MInt 1), (''rows'', MInt 0)]\<rparr>,
      [Fetch ''/CONSTRUCTORS.specific'' (normalize_params [(''constructor'', Scalar (SStr ''ferrari''))])])"
    by (simp add: attempt_once_def try_block_def env_empty_def some_frames_def no_rows_def)
  have v: "unit_results env_empty ?r =
      [Inr \<lparr>u_success = True, u_data = Some 2, u_error = None,
          u_metadata = [(''endpoint'', MStr ''/CONSTRUCTORS.specific''),
                        (''params'', MParams (normalize_params [(''constructor'', Scalar (SStr ''ferrari''))])),
                        (''timestamp'', MStr ''2026-03-01T12:00:00''),
                        (''attempt'', MInt 1), (''rows'', MInt 0)]\<rparr>]"
    using n by (simp add: out(1) entity_req_def process_single_def Let_def upt_max_retries a)
  have f: "map (unit_frame (frame_objects env_empty)) (unit_results env_empty ?r)
             = [Some \<lparr>df_columns = [''position''], df_rows = []\<rparr>]"
    unfolding v by (simp add: unit_frame_def unit_ref_def env_empty_def some_frames_def no_rows_def)
  have k: "list_all unit_ok (unit_results env_empty ?r)"
    unfolding v by (simp add: unit_ok_def)
  have d: "\<forall>x \<in> set (unit_results env_empty ?r).
             \<forall>d. unit_frame (frame_objects env_empty) x = Some d \<longrightarrow> df_empty d"
    unfolding v by (simp add: unit_frame_def unit_ref_def env_empty_def some_frames_def no_rows_def
        df_empty_def)
  from process_success [of env_up ?r] process_success [of env_empty ?r] s c d f k
  show ?thesis by simp
qed

end
